theory Spec2Isabelle
  imports Complex_Main "HOL-Library.Sublist" "HOL-Library.Char_ord" "HOL-Library.List_Lexorder"
    "HOL-Library.Monad_Syntax" "HOL-Library.Multiset"
begin

section \<open>Text primitives of the Python runtime\<close>

text \<open>
  Text is modelled as \<^typ>\<open>string\<close>: one \<^typ>\<open>char\<close> per code point, for code points
  below 256. The log files written by smartctl and fio are ASCII.

  \<open>is_space\<close> is the class \<open>\s\<close> of \<open>re\<close> on \<open>str\<close> patterns and the whitespace of
  \<open>str.strip\<close> and \<open>str.split\<close>: in this range the code points 9 to 13, 28 to 32,
  0x85 and 0xA0. \<open>is_digit\<close> is the class \<open>\d\<close>: in this range the ASCII digits.
\<close>

definition is_space :: "char \<Rightarrow> bool" where
  "is_space c =
     (let n = (of_char c :: nat)
      in (9 \<le> n \<and> n \<le> 13) \<or> (28 \<le> n \<and> n \<le> 32) \<or> n = 133 \<or> n = 160)"

definition is_digit :: "char \<Rightarrow> bool" where
  "is_digit c = (let n = (of_char c :: nat) in 48 \<le> n \<and> n \<le> 57)"

text \<open>\<open>s.strip()\<close>\<close>

definition py_strip :: "string \<Rightarrow> string" where
  "py_strip s = rev (dropWhile is_space (rev (dropWhile is_space s)))"

text \<open>\<open>sub in s\<close> on two strings\<close>

fun contains :: "string \<Rightarrow> string \<Rightarrow> bool" where
  "contains sub [] = (sub = [])"
| "contains sub (c # cs) = (prefix sub (c # cs) \<or> contains sub cs)"

text \<open>\<open>s.find(sub)\<close>: the index of the first occurrence, \<open>None\<close> for Python's -1.\<close>

fun find_str :: "string \<Rightarrow> string \<Rightarrow> nat option" where
  "find_str sub [] = (if sub = [] then Some 0 else None)"
| "find_str sub (c # cs) =
     (if prefix sub (c # cs) then Some 0 else map_option Suc (find_str sub cs))"

lemma find_str_bound: "find_str sub s = Some i \<Longrightarrow> i + length sub \<le> length s"
proof (induction s arbitrary: i)
  case Nil
  then show ?case by (simp split: if_splits)
next
  case (Cons c cs)
  show ?case
  proof (cases "prefix sub (c # cs)")
    case True
    with Cons.prems show ?thesis by (auto dest: prefix_length_le)
  next
    case False
    with Cons.prems obtain j where "find_str sub cs = Some j" "i = Suc j" by auto
    with Cons.IH show ?thesis by fastforce
  qed
qed

text \<open>
  \<open>s.split(sep)\<close> with a separator: the pieces between the occurrences of \<open>sep\<close>, found
  from the left, each search starting behind the previous occurrence. Python raises
  ValueError on an empty separator; the only separator of the program is a literal, and
  the model gives the empty list there.
\<close>

function split_str :: "string \<Rightarrow> string \<Rightarrow> string list" where
  "split_str sep s =
     (if sep = [] then []
      else (case find_str sep s of
              None \<Rightarrow> [s]
            | Some i \<Rightarrow> take i s # split_str sep (drop (i + length sep) s)))"
  by pat_completeness auto
termination
proof (relation "measure (\<lambda>(sep, s). length s)")
  show "wf (measure (\<lambda>(sep, s). length s))" by simp
next
  fix sep s :: string and i :: nat
  assume "sep \<noteq> []" and "find_str sep s = Some i"
  then have "0 < length sep" and "i + length sep \<le> length s"
    by (auto dest: find_str_bound)
  then have "length s - (i + length sep) < length s"
    by arith
  then show "((sep, drop (i + length sep) s), (sep, s)) \<in> measure (\<lambda>(sep, s). length s)"
    by simp
qed

declare split_str.simps [simp del]

text \<open>\<open>str(n)\<close> of an integer, as an f-string prints it.\<close>

definition digit_char :: "nat \<Rightarrow> char" where
  "digit_char n = ''0123456789'' ! n"

function show_nat :: "nat \<Rightarrow> string" where
  "show_nat n = (if n < 10 then [digit_char n] else show_nat (n div 10) @ [digit_char (n mod 10)])"
  by pat_completeness auto
termination
  by (relation "measure id") auto

declare show_nat.simps [simp del]

definition show_int :: "int \<Rightarrow> string" where
  "show_int i = (if i < 0 then CHR ''-'' # show_nat (nat (- i)) else show_nat (nat i))"

text \<open>
  \<open>int(s)\<close> in base ten: surrounding whitespace is dropped, one sign is allowed, and the
  digits may be grouped by single underscores. \<open>None\<close> is ValueError. (CPython's optional
  limit on the length of a decimal string is not modelled.)
\<close>

fun int_body :: "string \<Rightarrow> bool" where
  "int_body [] = False"
| "int_body [c] = is_digit c"
| "int_body (c # d # r) = (is_digit c \<and> (if d = CHR ''_'' then int_body r else int_body (d # r)))"

definition digit_val :: "char \<Rightarrow> nat" where
  "digit_val c = of_char c - 48"

definition digits_value :: "string \<Rightarrow> nat" where
  "digits_value ds = foldl (\<lambda>a c. 10 * a + digit_val c) 0 ds"

definition py_int :: "string \<Rightarrow> int option" where
  "py_int s =
     (let t = py_strip s;
          neg = (t \<noteq> [] \<and> hd t = CHR ''-'');
          body = (if t \<noteq> [] \<and> (hd t = CHR ''-'' \<or> hd t = CHR ''+'') then tl t else t)
      in if int_body body
         then Some ((if neg then - 1 else 1) * int (digits_value (filter is_digit body)))
         else None)"

section \<open>Regular expressions\<close>

text \<open>
  The patterns of the parser use literal text, character classes under one quantifier,
  and capturing groups that are not nested. A pattern is the list of its atoms in the
  order in which it is written.
\<close>

datatype cls =
    Space                 \<comment> \<open>\<open>\s\<close>\<close>
  | Digit                 \<comment> \<open>\<open>\d\<close>\<close>
  | Dot                   \<comment> \<open>\<open>.\<close>: every character but the newline\<close>
  | DotAll                \<comment> \<open>\<open>.\<close> under \<open>re.DOTALL\<close>: every character\<close>
  | Chars string          \<comment> \<open>the listed characters\<close>
  | Union cls cls         \<comment> \<open>a bracket expression with both members\<close>

fun in_cls :: "cls \<Rightarrow> char \<Rightarrow> bool" where
  "in_cls Space c = is_space c"
| "in_cls Digit c = is_digit c"
| "in_cls Dot c = (c \<noteq> CHR 0x0A)"
| "in_cls DotAll c = True"
| "in_cls (Chars cs) c = (c \<in> set cs)"
| "in_cls (Union a b) c = (in_cls a c \<or> in_cls b c)"

datatype atom =
    Lit string            \<comment> \<open>literal text\<close>
  | Plus cls              \<comment> \<open>\<open>c+\<close>\<close>
  | PlusLazy cls          \<comment> \<open>\<open>c+?\<close>\<close>
  | StarLazy cls          \<comment> \<open>\<open>c*?\<close>\<close>
  | Opt cls               \<comment> \<open>\<open>c?\<close>\<close>
  | Open                  \<comment> \<open>\<open>(\<close>\<close>
  | Close                 \<comment> \<open>\<open>)\<close>\<close>

text \<open>The first alternative that succeeds, in the order in which they are tried.\<close>

fun first_some :: "('a \<Rightarrow> 'b option) \<Rightarrow> 'a list \<Rightarrow> 'b option" where
  "first_some f [] = None"
| "first_some f (k # ks) = (case f k of Some r \<Rightarrow> Some r | None \<Rightarrow> first_some f ks)"

text \<open>How many characters at the front of the text are in the class.\<close>

definition run :: "cls \<Rightarrow> string \<Rightarrow> nat" where
  "run c s = length (takeWhile (in_cls c) s)"

text \<open>
  The backtracking matcher of \<open>re\<close>, anchored at the front of the text. A greedy
  quantifier takes the longest run first and gives characters back one at a time; a lazy
  one takes the fewest first and extends by one at a time. \<open>gs\<close> are the groups closed
  so far, \<open>cur\<close> the text of the group that is open. The result is the groups and the
  text behind the match.
\<close>

fun re_match :: "atom list \<Rightarrow> string list \<Rightarrow> string option \<Rightarrow> string \<Rightarrow> (string list \<times> string) option" where
  "re_match [] gs cur s = Some (gs, s)"
| "re_match (Lit l # rx) gs cur s =
     (if prefix l s then re_match rx gs (map_option (\<lambda>g. g @ l) cur) (drop (length l) s) else None)"
| "re_match (Plus c # rx) gs cur s =
     first_some (\<lambda>k. re_match rx gs (map_option (\<lambda>g. g @ take k s) cur) (drop k s))
       (rev [1 ..< Suc (run c s)])"
| "re_match (PlusLazy c # rx) gs cur s =
     first_some (\<lambda>k. re_match rx gs (map_option (\<lambda>g. g @ take k s) cur) (drop k s))
       [1 ..< Suc (run c s)]"
| "re_match (StarLazy c # rx) gs cur s =
     first_some (\<lambda>k. re_match rx gs (map_option (\<lambda>g. g @ take k s) cur) (drop k s))
       [0 ..< Suc (run c s)]"
| "re_match (Opt c # rx) gs cur s =
     first_some (\<lambda>k. re_match rx gs (map_option (\<lambda>g. g @ take k s) cur) (drop k s))
       (rev [0 ..< Suc (min 1 (run c s))])"
| "re_match (Open # rx) gs cur s = re_match rx gs (Some []) s"
| "re_match (Close # rx) gs cur s =
     re_match rx (gs @ [case cur of Some g \<Rightarrow> g | None \<Rightarrow> []]) None s"

text \<open>\<open>re.search\<close>: the match at the leftmost position that has one; the result is its groups.\<close>

fun re_search :: "atom list \<Rightarrow> string \<Rightarrow> string list option" where
  "re_search rx [] = map_option fst (re_match rx [] None [])"
| "re_search rx (c # cs) =
     (case re_match rx [] None (c # cs) of
        Some (gs, rest) \<Rightarrow> Some gs
      | None \<Rightarrow> re_search rx cs)"

text \<open>
  \<open>re.findall\<close>: the groups of every match, from the left, each search starting behind the
  previous match (one character further after an empty match).
\<close>

function re_findall :: "atom list \<Rightarrow> string \<Rightarrow> string list list" where
  "re_findall rx [] = (case re_match rx [] None [] of Some (gs, rest) \<Rightarrow> [gs] | None \<Rightarrow> [])"
| "re_findall rx (c # cs) =
     (case re_match rx [] None (c # cs) of
        Some (gs, rest) \<Rightarrow>
          gs # (if length rest < length (c # cs) then re_findall rx rest else re_findall rx cs)
      | None \<Rightarrow> re_findall rx cs)"
  by pat_completeness auto
termination
  by (relation "measure (\<lambda>(rx, s). length s)") auto

text \<open>\<open>m.group(n)\<close> for a group that the pattern has.\<close>

definition group :: "nat \<Rightarrow> string list \<Rightarrow> string" where
  "group n gs = (if 0 < n \<and> n \<le> length gs then gs ! (n - 1) else [])"

section \<open>The device record\<close>

text \<open>
  The dictionary \<open>self.data\<close> of \<open>NVMeLogParser\<close>. Its keys are fixed by \<open>__init__\<close>;
  \<open>peak_read_bw\<close> and \<open>peak_write_bw\<close> are the two keys that \<open>main\<close> of
  \<open>update_report_with_peak_perf.py\<close> may add, \<open>None\<close> when the key is absent.
\<close>

record drive =
  drive_name :: string
  model :: string
  serial :: string
  firmware :: string
  capacity :: string
  nvme_version :: string
  pci_gen :: string
  health_status :: string
  temp_before :: string
  temp_after :: string
  temp_sensors_after :: "(string \<times> string) list"
  percentage_used :: string
  data_read :: string
  data_written :: string
  read_iops :: string
  read_bw :: string
  write_iops :: string
  write_bw :: string
  checkpoint_write_iops :: string
  checkpoint_write_bw :: string
  errors :: int
  test_duration :: string
  workload :: string
  peak_read_bw :: "string option"
  peak_write_bw :: "string option"

section \<open>The log parser\<close>

text \<open>\<open>NVMeLogParser.__init__\<close>: the record before parsing; \<open>name\<close> is \<open>Path(log_file).stem\<close>.\<close>

definition init_data :: "string \<Rightarrow> drive" where
  "init_data name =
     \<lparr>drive_name = name, model = ''Unknown'', serial = ''Unknown'', firmware = ''Unknown'',
      capacity = ''Unknown'', nvme_version = ''Unknown'', pci_gen = ''Unknown'',
      health_status = ''Unknown'', temp_before = ''Unknown'', temp_after = ''Unknown'',
      temp_sensors_after = [], percentage_used = ''Unknown'', data_read = ''Unknown'',
      data_written = ''Unknown'', read_iops = ''Unknown'', read_bw = ''Unknown'',
      write_iops = ''Unknown'', write_bw = ''Unknown'', checkpoint_write_iops = ''Unknown'',
      checkpoint_write_bw = ''Unknown'', errors = 0, test_duration = ''10 minutes'',
      workload = ''AI Data Load & Model Checkpoint'', peak_read_bw = None, peak_write_bw = None\<rparr>"

text \<open>The patterns of \<open>parse\<close>, in the order of the source.\<close>

definition rx_model :: "atom list" where
  "rx_model = [Lit ''Model Number:'', Plus Space, Open, Plus Dot, Close]"

definition rx_serial :: "atom list" where
  "rx_serial = [Lit ''Serial Number:'', Plus Space, Open, Plus Dot, Close]"

definition rx_firmware :: "atom list" where
  "rx_firmware = [Lit ''Firmware Version:'', Plus Space, Open, Plus Dot, Close]"

definition rx_capacity :: "atom list" where
  "rx_capacity =
     [Lit ''Total NVM Capacity:'', Plus Space, Plus (Union Digit (Chars '','')), Plus Space,
      Lit ''['', Open, PlusLazy Dot, Close, Lit '']'']"

definition rx_nvme_version :: "atom list" where
  "rx_nvme_version = [Lit ''NVMe Version:'', Plus Space, Open, Plus Dot, Close]"

definition rx_health :: "atom list" where
  "rx_health =
     [Lit ''SMART overall-health self-assessment test result:'', Plus Space, Open, Plus Dot, Close]"

definition rx_temperature :: "atom list" where
  "rx_temperature =
     [Lit ''Temperature:'', Plus Space, Open, Plus Digit, Close, Plus Space, Lit ''Celsius'']"

definition rx_percentage :: "atom list" where
  "rx_percentage = [Lit ''Percentage Used:'', Plus Space, Open, PlusLazy Dot, Close, Lit ''%'']"

definition rx_temp_sensor :: "atom list" where
  "rx_temp_sensor =
     [Lit ''Temperature Sensor '', Open, Plus Digit, Close, Lit '':'', Plus Space,
      Open, Plus Digit, Close, Plus Space, Lit ''Celsius'']"

definition rx_data_read :: "atom list" where
  "rx_data_read =
     [Lit ''Data Units Read:'', Plus Space, Open, Plus (Union Digit (Chars '','')), Close,
      Plus Space, Lit ''['', Open, PlusLazy Dot, Close, Lit '']'']"

definition rx_data_written :: "atom list" where
  "rx_data_written =
     [Lit ''Data Units Written:'', Plus Space, Open, Plus (Union Digit (Chars '','')), Close,
      Plus Space, Lit ''['', Open, PlusLazy Dot, Close, Lit '']'']"

definition rx_read_perf :: "atom list" where
  "rx_read_perf =
     [Lit ''Run status group 0'', StarLazy DotAll, Lit ''READ:'', Plus Space, Lit ''bw='',
      Open, Plus Digit, Close, Lit ''MiB/s'', StarLazy DotAll, Lit ''io='',
      Open, PlusLazy DotAll, Close, Lit ''('']"

definition rx_read_iops :: "atom list" where
  "rx_read_iops =
     [Lit ''read: IOPS='', Open, Plus (Union Digit (Chars ''.'')), Opt (Chars ''kM''), Close,
      Lit '','']"

definition rx_write_perf :: "atom list" where
  "rx_write_perf =
     [Lit ''Run status group 0'', StarLazy DotAll, Lit ''WRITE:'', Plus Space, Lit ''bw='',
      Open, Plus Digit, Close, Lit ''MiB/s'']"

definition rx_write_iops :: "atom list" where
  "rx_write_iops =
     [Lit ''write: IOPS='', Open, Plus (Union Digit (Chars ''.'')), Opt (Chars ''kM''), Close,
      Lit '','']"

definition rx_checkpoint :: "atom list" where
  "rx_checkpoint =
     [Lit ''Run status group 1'', StarLazy DotAll, Lit ''WRITE:'', Plus Space, Lit ''bw='',
      Open, Plus Digit, Close, Lit ''MiB/s'']"

definition rx_checkpoint_iops :: "atom list" where
  "rx_checkpoint_iops =
     [Lit ''ai_model_checkpoint'', StarLazy DotAll, Lit ''write: IOPS='', Open, Plus Digit, Close]"

definition rx_error_entries :: "atom list" where
  "rx_error_entries =
     [Lit ''Error Information Log Entries:'', Plus Space, Open, Plus Digit, Close]"

text \<open>
  The body of the \<open>try\<close> block of \<open>parse\<close> behind the read, one definition for each
  of its commented blocks. \<open>content\<close> is the text of the file, \<open>data0\<close> is \<open>self.data\<close> when
  the block is entered, the result is \<open>self.data\<close> when it is left. Every assignment of
  the source is one binding of \<open>data\<close>.
\<close>

text \<open>\<open># Extract drive specs\<close>\<close>

definition parse_specs :: "string \<Rightarrow> drive \<Rightarrow> drive" where
  "parse_specs content data0 =
     (let data = (case re_search rx_model content of
                    Some m \<Rightarrow> data0\<lparr>model := py_strip (group 1 m)\<rparr> | None \<Rightarrow> data0);
          data = (case re_search rx_serial content of
                    Some m \<Rightarrow> data\<lparr>serial := py_strip (group 1 m)\<rparr> | None \<Rightarrow> data);
          data = (case re_search rx_firmware content of
                    Some m \<Rightarrow> data\<lparr>firmware := py_strip (group 1 m)\<rparr> | None \<Rightarrow> data);
          data = (case re_search rx_capacity content of
                    Some m \<Rightarrow> data\<lparr>capacity := py_strip (group 1 m)\<rparr> | None \<Rightarrow> data);
          data = (case re_search rx_nvme_version content of
                    Some m \<Rightarrow> data\<lparr>nvme_version := py_strip (group 1 m)\<rparr> | None \<Rightarrow> data)
      in data)"

text \<open>
  \<open># Extract SMART data before test\<close>, \<open># Temperature before test (first occurrence)\<close>
  and \<open># Extract percentage used\<close>
\<close>

definition parse_smart_before :: "string \<Rightarrow> drive \<Rightarrow> drive" where
  "parse_smart_before content data0 =
     (let data = (case re_search rx_health content of
                    Some m \<Rightarrow> data0\<lparr>health_status := py_strip (group 1 m)\<rparr> | None \<Rightarrow> data0);
          data = (case re_search rx_temperature content of
                    Some m \<Rightarrow> data\<lparr>temp_before := group 1 m\<rparr> | None \<Rightarrow> data);
          data = (case re_search rx_percentage content of
                    Some m \<Rightarrow> data\<lparr>percentage_used := py_strip (group 1 m)\<rparr> | None \<Rightarrow> data)
      in data)"

text \<open>\<open># Extract post-test SMART data (from the end of file)\<close>\<close>

definition parse_after_test :: "string \<Rightarrow> drive \<Rightarrow> drive" where
  "parse_after_test content data0 =
     (let after_test_sections = split_str ''after test'' content
      in if length after_test_sections > 1 then
           (let after_section = last after_test_sections;
                data = (case re_search rx_temperature after_section of
                          Some m \<Rightarrow> data0\<lparr>temp_after := group 1 m\<rparr> | None \<Rightarrow> data0);
                temp_sensors = re_findall rx_temp_sensor after_section;
                data = data\<lparr>temp_sensors_after :=
                         map (\<lambda>m. (''Sensor '' @ group 1 m, group 2 m)) temp_sensors\<rparr>;
                data = (case re_search rx_data_read after_section of
                          Some m \<Rightarrow> data\<lparr>data_read := py_strip (group 2 m)\<rparr> | None \<Rightarrow> data);
                data = (case re_search rx_data_written after_section of
                          Some m \<Rightarrow> data\<lparr>data_written := py_strip (group 2 m)\<rparr> | None \<Rightarrow> data)
            in data)
         else data0)"

text \<open>\<open># Extract FIO performance metrics\<close>\<close>

definition parse_fio_metrics :: "string \<Rightarrow> drive \<Rightarrow> drive" where
  "parse_fio_metrics content data0 =
     (let data = (case re_search rx_read_perf content of
                    Some m \<Rightarrow> data0\<lparr>read_bw := group 1 m @ '' MiB/s''\<rparr> | None \<Rightarrow> data0);
          data = (case re_search rx_read_iops content of
                    Some m \<Rightarrow> data\<lparr>read_iops := group 1 m\<rparr> | None \<Rightarrow> data);
          data = (case re_search rx_write_perf content of
                    Some m \<Rightarrow> data\<lparr>write_bw := group 1 m @ '' MiB/s''\<rparr> | None \<Rightarrow> data);
          data = (case re_search rx_write_iops content of
                    Some m \<Rightarrow> data\<lparr>write_iops := group 1 m\<rparr> | None \<Rightarrow> data);
          data = (case re_search rx_checkpoint content of
                    Some m \<Rightarrow> data\<lparr>checkpoint_write_bw := group 1 m @ '' MiB/s''\<rparr> | None \<Rightarrow> data);
          data = (case re_search rx_checkpoint_iops content of
                    Some m \<Rightarrow> data\<lparr>checkpoint_write_iops := group 1 m\<rparr> | None \<Rightarrow> data)
      in data)"

text \<open>
  \<open># Check for errors\<close>. The conversion \<open>int\<close> is the last statement of the \<open>try\<close> block;
  were it to raise, the handler would return \<open>self.data\<close> as it is then.
\<close>

definition parse_errors :: "string \<Rightarrow> drive \<Rightarrow> drive" where
  "parse_errors content data0 =
     (case re_search rx_error_entries content of
        Some m \<Rightarrow>
          (case py_int (group 1 m) of
             Some n \<Rightarrow> data0\<lparr>errors := n\<rparr> | None \<Rightarrow> data0)
      | None \<Rightarrow> data0)"

text \<open>The blocks in the order of the source.\<close>

definition parse_content :: "string \<Rightarrow> drive \<Rightarrow> drive" where
  "parse_content content data0 =
     (let data = parse_specs content data0;
          data = parse_smart_before content data;
          data = parse_after_test content data;
          data = parse_fio_metrics content data;
          data = parse_errors content data
      in data)"

text \<open>
  \<open>parse\<close>. \<open>file\<close> is the text that \<open>open\<close> and \<open>read\<close> return, \<open>None\<close> when they raise;
  the handler prints the exception and the method returns \<open>self.data\<close> in both cases.
\<close>

definition parse :: "string option \<Rightarrow> drive \<Rightarrow> drive" where
  "parse file data =
     (case file of
        None \<Rightarrow> data
      | Some content \<Rightarrow> parse_content content data)"

text \<open>\<open>NVMeLogParser(log_file).parse()\<close>, as both \<open>main\<close> functions call it.\<close>

definition parse_log :: "string \<Rightarrow> string option \<Rightarrow> drive" where
  "parse_log name file = parse file (init_data name)"

section \<open>The host link query\<close>

text \<open>
  \<open>get_pcie_info\<close>. The two arguments are the decoded outputs of the two shell commands,
  \<open>None\<close> when \<open>subprocess.check_output\<close> or \<open>decode\<close> raised; the bare \<open>except\<close> turns
  every failure into the pair of \<open>Unknown\<close>.
\<close>

definition get_pcie_info :: "string option \<Rightarrow> string option \<Rightarrow> string \<times> string" where
  "get_pcie_info speed_out width_out =
     (case speed_out of
        None \<Rightarrow> (''Unknown'', ''Unknown'')
      | Some so \<Rightarrow>
          (case width_out of
             None \<Rightarrow> (''Unknown'', ''Unknown'')
           | Some wo \<Rightarrow>
               (let speed = py_strip so;
                    width = py_strip wo;
                    pcie_gen =
                      (if contains ''32.0 GT/s'' speed \<or> contains ''32 GT/s'' speed then ''PCIe 5.0''
                       else if contains ''16.0 GT/s'' speed \<or> contains ''16 GT/s'' speed then ''PCIe 4.0''
                       else if contains ''8.0 GT/s'' speed \<or> contains ''8 GT/s'' speed then ''PCIe 3.0''
                       else ''Unknown'')
                in (pcie_gen @ '' x'' @ width, speed))))"

section \<open>Summary counts and status badges\<close>

text \<open>\<open>generate_html_report\<close>: the count of passed drives and the badge of one card.\<close>

definition passed_count :: "drive list \<Rightarrow> int" where
  "passed_count drives_data =
     sum_list (map (\<lambda>d. 1) (filter (\<lambda>d. health_status d = ''PASSED'' \<and> errors d = 0) drives_data))"

definition status_class :: "drive \<Rightarrow> string" where
  "status_class d =
     (if health_status d = ''PASSED'' \<and> errors d = 0 then ''status-passed'' else ''status-failed'')"

text \<open>\<open>generate_html_report_with_peak\<close>: the same two expressions, written again there.\<close>

definition passed_count_peak :: "drive list \<Rightarrow> int" where
  "passed_count_peak drives_data =
     sum_list (map (\<lambda>d. 1) (filter (\<lambda>d. health_status d = ''PASSED'' \<and> errors d = 0) drives_data))"

definition status_class_peak :: "drive \<Rightarrow> string" where
  "status_class_peak d =
     (if health_status d = ''PASSED'' \<and> errors d = 0 then ''status-passed'' else ''status-failed'')"

section \<open>The report renderer\<close>

text \<open>
  The two generators build the page from f-strings. Their literal text (markup and style
  sheet, with signs outside the range of the character model) carries no logic and is a
  parameter: \<open>lit env p n\<close> is the literal text of template \<open>p\<close> between its interpolations
  \<open>n - 1\<close> and \<open>n\<close>, and \<open>lit env Check_mark 0\<close> is the check mark of the badge text. The
  record also holds two functions of the Python runtime: \<open>str.upper\<close> and the format
  \<open>.0f\<close> of a float, given its value.
\<close>

datatype part = Head | Card | Sensor | Card_end | Footer | Check_mark

record env =
  lit :: "part \<Rightarrow> nat \<Rightarrow> string"
  upper :: "string \<Rightarrow> string"
  fixed0 :: "rat \<Rightarrow> string"

text \<open>\<open>generate_html_report\<close>: the badge text of one card.\<close>

definition status_text :: "env \<Rightarrow> drive \<Rightarrow> string" where
  "status_text env d =
     (if health_status d = ''PASSED'' \<and> errors d = 0
      then ''PASSED '' @ lit env Check_mark 0 else ''CHECK'')"

text \<open>The first f-string: the page down to the end of the summary.\<close>

definition report_head :: "env \<Rightarrow> string option \<Rightarrow> string option \<Rightarrow> drive list \<Rightarrow> string" where
  "report_head env speed_out width_out drives_data =
     (let passed_count = passed_count drives_data;
          total_count = int (length drives_data);
          (pcie_info, pcie_speed) = get_pcie_info speed_out width_out
      in lit env Head 0 @ show_int total_count @ lit env Head 1 @ show_int passed_count
         @ lit env Head 2 @ pcie_info @ lit env Head 3 @ pcie_speed @ lit env Head 4)"

text \<open>The f-string of one sensor.\<close>

definition sensor_item :: "env \<Rightarrow> string \<times> string \<Rightarrow> string" where
  "sensor_item env sensor =
     (case sensor of (sensor_name, temp) \<Rightarrow>
        lit env Sensor 0 @ sensor_name @ lit env Sensor 1 @ temp @ lit env Sensor 2)"

text \<open>The body of the loop over the drives: what one drive appends to \<open>html\<close>.\<close>

definition add_card :: "env \<Rightarrow> string \<Rightarrow> drive \<Rightarrow> string" where
  "add_card env html0 drive =
     (let status_class = status_class drive;
          status_text = status_text env drive;
          html = html0 @
            (lit env Card 0 @ upper env (drive_name drive)
             @ lit env Card 1 @ status_class
             @ lit env Card 2 @ status_text
             @ lit env Card 3 @ model drive
             @ lit env Card 4 @ serial drive
             @ lit env Card 5 @ capacity drive
             @ lit env Card 6 @ firmware drive
             @ lit env Card 7 @ nvme_version drive
             @ lit env Card 8 @ health_status drive
             @ lit env Card 9 @ percentage_used drive
             @ lit env Card 10 @ show_int (errors drive)
             @ lit env Card 11 @ read_bw drive
             @ lit env Card 12 @ read_iops drive
             @ lit env Card 13 @ write_bw drive
             @ lit env Card 14 @ write_iops drive
             @ lit env Card 15 @ data_read drive
             @ lit env Card 16 @ data_written drive
             @ lit env Card 17 @ temp_before drive
             @ lit env Card 18 @ temp_after drive
             @ lit env Card 19);
          html = foldl (\<lambda>html sensor. html @ sensor_item env sensor) html (temp_sensors_after drive);
          html = html @ lit env Card_end 0
      in html)"

text \<open>The last f-string; \<open>current_time\<close> is the formatted result of \<open>datetime.now()\<close>.\<close>

definition report_footer :: "env \<Rightarrow> string option \<Rightarrow> string option \<Rightarrow> string \<Rightarrow> string" where
  "report_footer env speed_out width_out current_time =
     (let (pcie_info, pcie_speed) = get_pcie_info speed_out width_out
      in lit env Footer 0 @ pcie_info @ lit env Footer 1 @ pcie_speed
         @ lit env Footer 2 @ current_time @ lit env Footer 3)"

text \<open>
  \<open>generate_html_report\<close>: the text that is written to the output file. \<open>speed_out\<close> and
  \<open>width_out\<close> are the results of the two host queries of \<open>get_pcie_info\<close>.
\<close>

definition generate_html_report ::
  "env \<Rightarrow> string option \<Rightarrow> string option \<Rightarrow> string \<Rightarrow> drive list \<Rightarrow> string" where
  "generate_html_report env speed_out width_out current_time drives_data =
     (let html = report_head env speed_out width_out drives_data;
          html = foldl (add_card env) html (sort_key drive_name drives_data);
          html = html @ report_footer env speed_out width_out current_time
      in html)"

section \<open>Division of integers\<close>

text \<open>The number of binary digits of a natural number.\<close>

fun bitlen :: "nat \<Rightarrow> nat" where
  "bitlen n = (if n = 0 then 0 else Suc (bitlen (n div 2)))"

declare bitlen.simps [simp del]

text \<open>The quotient of \<open>n\<close> by \<open>d\<close> rounded to an integer, a tie to the even neighbour.\<close>

definition round_half_even :: "nat \<Rightarrow> nat \<Rightarrow> nat" where
  "round_half_even n d =
     (let q = n div d;
          r = n mod d
      in if d < 2 * r \<or> (2 * r = d \<and> odd q) then q + 1 else q)"

text \<open>
  \<open>a / b\<close> for two integers: Python returns the float that is nearest to the quotient, a
  tie going to the even neighbour, and raises ZeroDivisionError for \<open>b = 0\<close> and
  OverflowError when that float would be beyond the largest one. The result is the
  value of the float, \<open>None\<close> when the division raises. \<open>e\<close> is the binary exponent of the
  quotient, \<open>2 ^ q\<close> the distance of neighbouring floats at that exponent, where the
  exponents below -1022 share the distance of -1022.
\<close>

definition int_truediv :: "int \<Rightarrow> int \<Rightarrow> rat option" where
  "int_truediv a b =
     (if b = 0 then None
      else
        (let n = nat \<bar>a\<bar>;
             d = nat \<bar>b\<bar>;
             k = int (bitlen n) - int (bitlen d);
             e = (if (if 0 \<le> k then d * 2 ^ nat k \<le> n else d \<le> n * 2 ^ nat (- k))
                  then k else k - 1);
             q = max e (- 1022) - 52;
             v = (if 0 \<le> q
                  then of_nat (round_half_even n (d * 2 ^ nat q) * 2 ^ nat q)
                  else of_nat (round_half_even (n * 2 ^ nat (- q)) d) / of_nat (2 ^ nat (- q)))
         in if 2 ^ 1024 \<le> v then None else Some (of_int (sgn a * sgn b) * v)))"

section \<open>The peak report\<close>

text \<open>\<open>d.get(key, default)\<close> on an optional key of the record.\<close>

definition dict_get :: "'a option \<Rightarrow> 'a \<Rightarrow> 'a" where
  "dict_get v dflt = (case v of Some x \<Rightarrow> x | None \<Rightarrow> dflt)"

text \<open>\<open>s.split()\<close>: the maximal runs of characters that are not whitespace.\<close>

function py_split_ws :: "string \<Rightarrow> string list" where
  "py_split_ws s =
     (let t = dropWhile is_space s
      in if t = [] then []
         else takeWhile (\<lambda>c. \<not> is_space c) t # py_split_ws (dropWhile (\<lambda>c. \<not> is_space c) t))"
  by pat_completeness auto
termination
proof (relation "measure length")
  show "wf (measure length)" by simp
next
  fix s t :: string
  assume t: "t = dropWhile is_space s" and ne: "t \<noteq> []"
  then have "\<not> is_space (hd t)" by (simp add: hd_dropWhile)
  then have "dropWhile (\<lambda>c. \<not> is_space c) t = dropWhile (\<lambda>c. \<not> is_space c) (tl t)"
    using ne by (cases t) simp_all
  then have "length (dropWhile (\<lambda>c. \<not> is_space c) t) \<le> length (tl t)"
    by (simp only: length_dropWhile_le)
  also have "\<dots> < length t" using ne by simp
  also have "\<dots> \<le> length s" by (simp add: t length_dropWhile_le)
  finally show "(dropWhile (\<lambda>c. \<not> is_space c) t, s) \<in> measure length" by simp
qed

declare py_split_ws.simps [simp del]

text \<open>
  \<open>int(d.get(key, '0').split()[0])\<close>; \<open>None\<close> when the index or the conversion raises.
\<close>

definition peak_value :: "string option \<Rightarrow> int option" where
  "peak_value v =
     (case py_split_ws (dict_get v ''0'') of
        [] \<Rightarrow> None
      | w # ws \<Rightarrow> py_int w)"

text \<open>
  The average of one peak field, as \<open>generate_html_report_with_peak\<close> computes it for
  \<open>peak_read_bw\<close> and for \<open>peak_write_bw\<close>: \<open>key\<close> selects the field. The sum and the
  count are integers and \<open>/\<close> is their true division, so the result is the value of a
  float; \<open>None\<close> when a conversion or the division raises, which ends the generator.
\<close>

definition avg_peak :: "(drive \<Rightarrow> string option) \<Rightarrow> drive list \<Rightarrow> rat option" where
  "avg_peak key drives_data =
     (let present = filter (\<lambda>d. dict_get (key d) ''N/A'' \<noteq> ''N/A'') drives_data
      in case those (map (\<lambda>d. peak_value (key d)) present) of
           None \<Rightarrow> None
         | Some values \<Rightarrow>
             int_truediv (sum_list values) (max (sum_list (map (\<lambda>d. 1) present)) 1))"

text \<open>The body of the loop over the drives in the peak report.\<close>

definition add_card_peak :: "env \<Rightarrow> string \<Rightarrow> drive \<Rightarrow> string" where
  "add_card_peak env html0 drive =
     (let status_class = status_class_peak drive;
          status_text = status_text env drive;
          model_display = model drive;
          model_display = (if length model_display > 30
                           then take 27 model_display @ ''...'' else model_display);
          html = html0 @
            (lit env Card 0 @ upper env (drive_name drive)
             @ lit env Card 1 @ status_class
             @ lit env Card 2 @ status_text
             @ lit env Card 3 @ model drive
             @ lit env Card 4 @ model_display
             @ lit env Card 5 @ serial drive
             @ lit env Card 6 @ capacity drive
             @ lit env Card 7 @ firmware drive
             @ lit env Card 8 @ nvme_version drive
             @ lit env Card 9 @ health_status drive
             @ lit env Card 10 @ percentage_used drive
             @ lit env Card 11 @ show_int (errors drive)
             @ lit env Card 12 @ dict_get (peak_read_bw drive) ''N/A''
             @ lit env Card 13 @ dict_get (peak_write_bw drive) ''N/A''
             @ lit env Card 14 @ read_bw drive
             @ lit env Card 15 @ read_iops drive
             @ lit env Card 16 @ write_bw drive
             @ lit env Card 17 @ write_iops drive
             @ lit env Card 18 @ data_read drive
             @ lit env Card 19 @ data_written drive
             @ lit env Card 20 @ temp_before drive
             @ lit env Card 21 @ temp_after drive
             @ lit env Card 22);
          html = foldl (\<lambda>html sensor. html @ sensor_item env sensor) html (temp_sensors_after drive);
          html = html @ lit env Card_end 0
      in html)"

text \<open>The last f-string of the peak report, with the two averages.\<close>

definition report_footer_peak ::
  "env \<Rightarrow> string option \<Rightarrow> string option \<Rightarrow> string \<Rightarrow> rat \<Rightarrow> rat \<Rightarrow> string" where
  "report_footer_peak env speed_out width_out current_time avg_peak_read avg_peak_write =
     (let (pcie_info, pcie_speed) = get_pcie_info speed_out width_out
      in lit env Footer 0 @ pcie_info @ lit env Footer 1 @ pcie_speed
         @ lit env Footer 2 @ fixed0 env avg_peak_read
         @ lit env Footer 3 @ fixed0 env avg_peak_write
         @ lit env Footer 4 @ current_time @ lit env Footer 5)"

text \<open>
  \<open>generate_html_report_with_peak\<close>: the text that is written, \<open>None\<close> when the
  computation of an average raises (nothing is written then). The literal text of this
  generator is its own, so its \<open>env\<close> is another than that of the plain report.
\<close>

definition generate_html_report_with_peak ::
  "env \<Rightarrow> string option \<Rightarrow> string option \<Rightarrow> string \<Rightarrow> drive list \<Rightarrow> string option" where
  "generate_html_report_with_peak env speed_out width_out current_time drives_data =
     (let html = report_head env speed_out width_out drives_data;
          html = foldl (add_card_peak env) html (sort_key drive_name drives_data)
      in case avg_peak peak_read_bw drives_data of
           None \<Rightarrow> None
         | Some avg_peak_read \<Rightarrow>
             (case avg_peak peak_write_bw drives_data of
                None \<Rightarrow> None
              | Some avg_peak_write \<Rightarrow>
                  Some (html @ report_footer_peak env speed_out width_out current_time
                                 avg_peak_read avg_peak_write)))"

section \<open>The peak artifact\<close>

text \<open>
  What \<open>json.load\<close> returns. A float is given by its value, or is one of the three
  special values that the \<open>json\<close> module reads. \<open>JObj\<close> holds the items of a dictionary,
  whose keys are distinct.
\<close>

datatype fl = Finite rat | PosInf | NegInf | NaN

datatype json =
    JNull
  | JBool bool
  | JInt int
  | JFloat fl
  | JStr string
  | JArr "json list"
  | JObj "(string \<times> json) list"

text \<open>
  The operations of \<open>parse_fio_json\<close> on such a value; \<open>None\<close> is a raised exception
  (TypeError, KeyError, IndexError, OverflowError or ValueError).
\<close>

text \<open>\<open>key in v\<close>\<close>

definition py_in :: "string \<Rightarrow> json \<Rightarrow> bool option" where
  "py_in k v =
     (case v of
        JObj kvs \<Rightarrow> Some (k \<in> set (map fst kvs))
      | JArr xs \<Rightarrow> Some (JStr k \<in> set xs)
      | JStr s \<Rightarrow> Some (contains k s)
      | _ \<Rightarrow> None)"

text \<open>\<open>v[key]\<close> for a string \<open>key\<close>\<close>

definition py_getitem :: "json \<Rightarrow> string \<Rightarrow> json option" where
  "py_getitem v k = (case v of JObj kvs \<Rightarrow> map_of kvs k | _ \<Rightarrow> None)"

text \<open>\<open>len(v)\<close>\<close>

definition py_len :: "json \<Rightarrow> nat option" where
  "py_len v =
     (case v of
        JObj kvs \<Rightarrow> Some (length kvs)
      | JArr xs \<Rightarrow> Some (length xs)
      | JStr s \<Rightarrow> Some (length s)
      | _ \<Rightarrow> None)"

text \<open>\<open>v[0]\<close>\<close>

definition py_first :: "json \<Rightarrow> json option" where
  "py_first v =
     (case v of
        JArr xs \<Rightarrow> (case xs of [] \<Rightarrow> None | x # _ \<Rightarrow> Some x)
      | JStr s \<Rightarrow> (case s of [] \<Rightarrow> None | c # _ \<Rightarrow> Some (JStr [c]))
      | _ \<Rightarrow> None)"

text \<open>\<open>v > 0\<close>\<close>

definition py_gt0 :: "json \<Rightarrow> bool option" where
  "py_gt0 v =
     (case v of
        JInt n \<Rightarrow> Some (0 < n)
      | JBool b \<Rightarrow> Some b
      | JFloat f \<Rightarrow> (case f of Finite r \<Rightarrow> Some (0 < r) | PosInf \<Rightarrow> Some True
                      | NegInf \<Rightarrow> Some False | NaN \<Rightarrow> Some False)
      | _ \<Rightarrow> None)"

text \<open>
  A natural number rounded to 53 significant binary digits, ties to even: the numerator
  of the float that the true division of an integer by a power of two returns.
\<close>

definition round53 :: "nat \<Rightarrow> nat" where
  "round53 n =
     (if bitlen n \<le> 53 then n
      else (let e = bitlen n - 53;
                q = n div 2 ^ e;
                r = n mod 2 ^ e;
                q = (if 2 ^ (e - 1) < r \<or> (r = 2 ^ (e - 1) \<and> odd q) then q + 1 else q)
            in q * 2 ^ e))"

text \<open>
  \<open>int(n / 1024)\<close> for an integer \<open>n\<close>: the true division gives the nearest float, or
  raises OverflowError when that is beyond the largest float, and \<open>int\<close> cuts the
  fraction off.
\<close>

definition int_truediv_1024 :: "int \<Rightarrow> int option" where
  "int_truediv_1024 n =
     (let m = round53 (nat \<bar>n\<bar>)
      in if 2 ^ 1034 \<le> m then None
         else Some (sgn n * int (m div 1024)))"

text \<open>
  \<open>int(v / 1024)\<close>. The division of a float by 1024 is exact unless the quotient is
  below the normal range, where it is below one before and after rounding.
\<close>

definition py_div_1024_int :: "json \<Rightarrow> int option" where
  "py_div_1024_int v =
     (case v of
        JInt n \<Rightarrow> int_truediv_1024 n
      | JBool b \<Rightarrow> Some 0
      | JFloat f \<Rightarrow> (case f of
                       Finite r \<Rightarrow> Some (if 0 \<le> r then \<lfloor>r / 1024\<rfloor> else \<lceil>r / 1024\<rceil>)
                     | _ \<Rightarrow> None)
      | _ \<Rightarrow> None)"

text \<open>\<open>key in job and 'bw' in job[key] and job[key]['bw'] > 0\<close>\<close>

definition has_bw :: "string \<Rightarrow> json \<Rightarrow> bool option" where
  "has_bw key job =
     do {
       a \<leftarrow> py_in key job;
       if a then
         do {
           sub \<leftarrow> py_getitem job key;
           b \<leftarrow> py_in ''bw'' sub;
           if b then do { bw \<leftarrow> py_getitem sub ''bw''; py_gt0 bw } else Some False
         }
       else Some False
     }"

text \<open>\<open>bw_kbs = job[key]['bw']; return int(bw_kbs / 1024)\<close>\<close>

definition return_bw :: "string \<Rightarrow> json \<Rightarrow> int option" where
  "return_bw key job =
     do {
       sub \<leftarrow> py_getitem job key;
       bw_kbs \<leftarrow> py_getitem sub ''bw'';
       py_div_1024_int bw_kbs
     }"

text \<open>
  The body of the \<open>try\<close> block of \<open>parse_fio_json\<close> behind the load: \<open>None\<close> when it
  raises, otherwise the value that it returns, which is \<open>None\<close> or an integer.
\<close>

definition fio_body :: "json \<Rightarrow> int option option" where
  "fio_body data =
     do {
       has_jobs \<leftarrow> py_in ''jobs'' data;
       nonempty \<leftarrow>
         (if has_jobs
          then do { jobs \<leftarrow> py_getitem data ''jobs''; n \<leftarrow> py_len jobs; Some (0 < n) }
          else Some False);
       if nonempty then
         do {
           jobs \<leftarrow> py_getitem data ''jobs'';
           job \<leftarrow> py_first jobs;
           rd \<leftarrow> has_bw ''read'' job;
           if rd then do { v \<leftarrow> return_bw ''read'' job; Some (Some v) }
           else
             do {
               wr \<leftarrow> has_bw ''write'' job;
               if wr then do { v \<leftarrow> return_bw ''write'' job; Some (Some v) }
               else Some None
             }
         }
       else Some None
     }"

text \<open>
  \<open>parse_fio_json\<close>. \<open>file\<close> is the value that \<open>open\<close> and \<open>json.load\<close> return, \<open>None\<close> when
  they raise; the handler returns \<open>None\<close> for every exception.
\<close>

definition parse_fio_json :: "json option \<Rightarrow> int option" where
  "parse_fio_json file =
     (case file of
        None \<Rightarrow> None
      | Some data \<Rightarrow> (case fio_body data of None \<Rightarrow> None | Some r \<Rightarrow> r))"

text \<open>
  \<open>main\<close> of \<open>update_report_with_peak_perf.py\<close>, for one log file: the two artifacts are
  merged into the parsed record. An artifact is \<open>None\<close> when its file does not exist.
  \<open>if peak_read:\<close> is false for \<open>None\<close> and for 0.
\<close>

definition merge_peak :: "drive \<Rightarrow> json option option \<Rightarrow> json option option \<Rightarrow> drive" where
  "merge_peak data0 read_json write_json =
     (let data =
            (case read_json of
               None \<Rightarrow> data0
             | Some file \<Rightarrow>
                 (case parse_fio_json file of
                    None \<Rightarrow> data0
                  | Some peak_read \<Rightarrow>
                      if peak_read \<noteq> 0
                      then data0\<lparr>peak_read_bw := Some (show_int peak_read @ '' MiB/s'')\<rparr>
                      else data0));
          data =
            (case write_json of
               None \<Rightarrow> data
             | Some file \<Rightarrow>
                 (case parse_fio_json file of
                    None \<Rightarrow> data
                  | Some peak_write \<Rightarrow>
                      if peak_write \<noteq> 0
                      then data\<lparr>peak_write_bw := Some (show_int peak_write @ '' MiB/s'')\<rparr>
                      else data))
      in data)"

section \<open>Facts about the text primitives\<close>

lemma contains_iff_sublist: "contains sub s \<longleftrightarrow> sublist sub s"
  by (induction s) (auto simp: sublist_Cons_right)

lemma sum_list_ones: "sum_list (map (\<lambda>d. 1) xs) = int (length xs)"
  by (induction xs) simp_all


lemma find_str_None_iff: "find_str sub s = None \<longleftrightarrow> \<not> contains sub s"
  by (induction s) auto

lemma find_str_Some_prefix: "find_str sub s = Some i \<Longrightarrow> prefix sub (drop i s)"
proof (induction s arbitrary: i)
  case Nil
  then show ?case by (simp split: if_splits)
next
  case (Cons c cs)
  then show ?case by (auto split: if_splits)
qed

lemma find_str_Some_least: "find_str sub s = Some i \<Longrightarrow> j < i \<Longrightarrow> \<not> prefix sub (drop j s)"
proof (induction s arbitrary: i j)
  case Nil
  then show ?case by (simp split: if_splits)
next
  case (Cons c cs)
  show ?case
  proof (cases "prefix sub (c # cs)")
    case True
    with Cons.prems show ?thesis by simp
  next
    case False
    with Cons.prems obtain i' where i': "find_str sub cs = Some i'" "i = Suc i'" by auto
    show ?thesis
    proof (cases j)
      case 0
      with False show ?thesis by simp
    next
      case (Suc j')
      with Cons.prems i' have "j' < i'" by simp
      with Cons.IH i' Suc show ?thesis by simp
    qed
  qed
qed

lemma contains_drop: "prefix sub (drop j s) \<Longrightarrow> j \<le> length s \<Longrightarrow> contains sub s"
proof (induction s arbitrary: j)
  case Nil
  then show ?case by simp
next
  case (Cons c cs)
  then show ?case by (cases j) auto
qed

lemma contains_append_mid: "contains sub (pre @ sub @ post)"
  by (simp add: contains_iff_sublist)

text \<open>A text whose first character does not occur in it again cannot overlap itself.\<close>

definition first_char_unique :: "string \<Rightarrow> bool" where
  "first_char_unique l \<longleftrightarrow> l \<noteq> [] \<and> hd l \<notin> set (tl l)"

lemma no_overlap:
  assumes u: "first_char_unique l"
    and p: "prefix l (drop i (pre @ l @ post))"
    and i: "i < length pre"
  shows "i + length l \<le> length pre"
proof (rule ccontr)
  assume "\<not> i + length l \<le> length pre"
  then have lt: "length pre - i < length l" using i by arith
  define j where "j = length pre - i"
  have j0: "0 < j" using i by (simp add: j_def)
  have jl: "j < length l" using lt by (simp add: j_def)
  from p obtain r where r: "drop i (pre @ l @ post) = l @ r"
    by (auto simp: prefix_def)
  have "(l @ r) ! j = l ! j"
    using jl by (simp add: nth_append)
  then have "drop i (pre @ l @ post) ! j = l ! j"
    by (simp only: r)
  moreover have "drop i (pre @ l @ post) ! j = (pre @ l @ post) ! length pre"
  proof -
    have "i + j = length pre" using i by (simp add: j_def)
    moreover have "drop i (pre @ l @ post) ! j = (pre @ l @ post) ! (i + j)"
      using i by (intro nth_drop) simp
    ultimately show ?thesis by simp
  qed
  moreover have "(pre @ l @ post) ! length pre = hd l"
    using u by (cases l) (simp_all add: first_char_unique_def nth_append)
  ultimately have "l ! j = hd l" by simp
  moreover have "l ! j \<in> set (tl l)"
    using j0 jl by (cases l; cases j) auto
  ultimately show False using u by (simp add: first_char_unique_def)
qed

lemma prefix_in_pre:
  assumes "prefix l (drop i (pre @ rest))" "i + length l \<le> length pre"
  shows "contains l pre"
proof -
  from assms have "prefix l (drop i pre @ rest)" by simp
  moreover have "length l \<le> length (drop i pre)" using assms by simp
  ultimately have "prefix l (drop i pre)"
    by (auto simp: prefix_append)
  then show ?thesis using assms by (auto intro: contains_drop)
qed

lemma split_str_absent: "sep \<noteq> [] \<Longrightarrow> \<not> contains sep s \<Longrightarrow> split_str sep s = [s]"
  by (subst split_str.simps) (simp add: find_str_None_iff[symmetric])

lemma split_str_last:
  assumes u: "first_char_unique sep" and post: "\<not> contains sep post"
  shows "last (split_str sep (pre @ sep @ post)) = post
         \<and> 1 < length (split_str sep (pre @ sep @ post))"
proof (induction "length pre" arbitrary: pre rule: less_induct)
  case less
  let ?s = "pre @ sep @ post"
  have ne: "sep \<noteq> []" using u by (simp add: first_char_unique_def)
  have "contains sep ?s" by (rule contains_append_mid)
  then obtain i where i: "find_str sep ?s = Some i"
    using find_str_None_iff[of sep ?s] by (cases "find_str sep ?s") auto
  have pi: "prefix sep (drop i ?s)" using i by (rule find_str_Some_prefix)
  have "\<not> length pre < i"
  proof
    assume "length pre < i"
    with i have "\<not> prefix sep (drop (length pre) ?s)" by (rule find_str_Some_least)
    then show False by simp
  qed
  then have ile: "i \<le> length pre" by simp
  have unf: "split_str sep ?s = take i ?s # split_str sep (drop (i + length sep) ?s)"
    using ne i by (subst split_str.simps) simp
  show ?case
  proof (cases "i = length pre")
    case True
    then have "drop (i + length sep) ?s = post" by simp
    moreover have "split_str sep post = [post]" using ne post by (rule split_str_absent)
    ultimately show ?thesis using unf by simp
  next
    case False
    with ile have ilt: "i < length pre" by simp
    with u pi have b: "i + length sep \<le> length pre" by (rule no_overlap)
    define pre' where "pre' = drop (i + length sep) pre"
    have d: "drop (i + length sep) ?s = pre' @ sep @ post" using b by (simp add: pre'_def)
    have "0 < length sep" using ne by simp
    then have "length pre' < length pre" using ilt unfolding pre'_def length_drop by arith
    then have "last (split_str sep (pre' @ sep @ post)) = post
               \<and> 1 < length (split_str sep (pre' @ sep @ post))" by (rule less)
    then show ?thesis using unf d by auto
  qed
qed

section \<open>Facts about the matcher\<close>

lemma is_digit_not_space: "is_digit c \<Longrightarrow> \<not> is_space c"
  by (auto simp: is_digit_def is_space_def Let_def)

lemma run_append:
  "\<forall>x\<in>set xs. in_cls c x \<Longrightarrow> (ys = [] \<or> \<not> in_cls c (hd ys)) \<Longrightarrow> run c (xs @ ys) = length xs"
  by (cases ys) (simp_all add: run_def takeWhile_append2 takeWhile_eq_all_conv[THEN iffD2])

lemma hd_all: "xs \<noteq> [] \<Longrightarrow> \<forall>x\<in>set xs. P x \<Longrightarrow> P (hd xs)"
  by (cases xs) simp_all

lemma rev_upt_1: "0 < n \<Longrightarrow> rev [1 ..< Suc n] = n # rev [1 ..< n]"
  by simp

lemma first_some_hit: "f k = Some r \<Longrightarrow> first_some f (k # ks) = Some r"
  by simp

lemma first_some_all_None: "(\<And>k. k \<in> set ks \<Longrightarrow> f k = None) \<Longrightarrow> first_some f ks = None"
  by (induction ks) auto

lemma re_match_Lit_None: "\<not> prefix l s \<Longrightarrow> re_match (Lit l # rx) gs cur s = None"
  by simp

lemma re_search_skip:
  "(\<And>i. i < length pre \<Longrightarrow> re_match rx [] None (drop i (pre @ s)) = None)
   \<Longrightarrow> re_search rx (pre @ s) = re_search rx s"
proof (induction pre)
  case Nil
  then show ?case by simp
next
  case (Cons c pre)
  have "re_match rx [] None (drop 0 ((c # pre) @ s)) = None"
    by (rule Cons.prems) simp
  then have h: "re_match rx [] None (c # pre @ s) = None" by simp
  have "re_search rx (pre @ s) = re_search rx s"
  proof (rule Cons.IH)
    fix i assume "i < length pre"
    then have "re_match rx [] None (drop (Suc i) ((c # pre) @ s)) = None"
      by (intro Cons.prems) simp
    then show "re_match rx [] None (drop i (pre @ s)) = None" by simp
  qed
  with h show ?case by simp
qed

lemma re_search_hit: "re_match rx [] None s = Some (gs, r) \<Longrightarrow> re_search rx s = Some gs"
  by (cases s) simp_all

text \<open>
  A pattern that starts with a literal whose first character is unique in it: the text
  before the first occurrence of the literal plays no part in the search.
\<close>

lemma re_search_Lit_skip:
  assumes u: "first_char_unique l" and a: "\<not> contains l pre"
  shows "re_search (Lit l # rx) (pre @ l @ rest) = re_search (Lit l # rx) (l @ rest)"
proof (rule re_search_skip)
  fix i assume i: "i < length pre"
  have "\<not> prefix l (drop i (pre @ l @ rest))"
  proof
    assume p: "prefix l (drop i (pre @ l @ rest))"
    with u i have "i + length l \<le> length pre" by (intro no_overlap[of l i pre rest])
    with p have "contains l pre" by (rule prefix_in_pre)
    with a show False by simp
  qed
  then show "re_match (Lit l # rx) [] None (drop i (pre @ l @ rest)) = None"
    by (rule re_match_Lit_None)
qed

lemma re_search_Lit_absent:
  assumes a: "\<not> contains l s"
  shows "re_search (Lit l # rx) s = None"
  using a
proof (induction s)
  case Nil
  then show ?case by simp
next
  case (Cons c cs)
  then show ?case by simp
qed

lemma re_match_Lit_append:
  "re_match (Lit l # rx) gs cur (l @ s) = re_match rx gs (map_option (\<lambda>g. g @ l) cur) s"
  by simp

text \<open>A greedy run that is followed by a character outside the class, when the rest matches.\<close>

lemma re_match_Plus_run:
  assumes xs: "xs \<noteq> []" "\<forall>x\<in>set xs. in_cls c x"
    and ys: "ys = [] \<or> \<not> in_cls c (hd ys)"
    and rest: "re_match rx gs (map_option (\<lambda>g. g @ xs) cur) ys = Some r"
  shows "re_match (Plus c # rx) gs cur (xs @ ys) = Some r"
proof -
  define f where
    "f = (\<lambda>k. re_match rx gs (map_option (\<lambda>g. g @ take k (xs @ ys)) cur) (drop k (xs @ ys)))"
  have n: "run c (xs @ ys) = length xs" using xs(2) ys by (rule run_append)
  have "0 < length xs" using xs(1) by simp
  then have ks: "rev [1 ..< Suc (length xs)] = length xs # rev [1 ..< length xs]"
    by (rule rev_upt_1)
  have fk: "f (length xs) = Some r" using rest by (simp add: f_def)
  have "re_match (Plus c # rx) gs cur (xs @ ys) = first_some f (rev [1 ..< Suc (run c (xs @ ys))])"
    unfolding f_def by (rule re_match.simps)
  also have "\<dots> = first_some f (length xs # rev [1 ..< length xs])"
    by (simp only: n ks)
  also have "\<dots> = Some r"
    using fk by (rule first_some_hit)
  finally show ?thesis .
qed

text \<open>A temperature line: the label, blanks, digits, blanks, the unit.\<close>

lemma re_match_temperature_line:
  assumes w1: "ws1 \<noteq> []" "\<forall>c\<in>set ws1. is_space c"
    and d: "ds \<noteq> []" "\<forall>c\<in>set ds. is_digit c"
    and w2: "ws2 \<noteq> []" "\<forall>c\<in>set ws2. is_space c"
  shows "re_match rx_temperature [] None (''Temperature:'' @ ws1 @ ds @ ws2 @ ''Celsius'' @ rest)
         = Some ([ds], rest)"
proof -
  have hd1: "\<not> in_cls Space (hd (ds @ ws2 @ ''Celsius'' @ rest))"
    using d hd_all[OF d] by (simp add: is_digit_not_space)
  have hd2: "\<not> in_cls Digit (hd (ws2 @ ''Celsius'' @ rest))"
    using w2 hd_all[OF w2] by (auto dest: is_digit_not_space)
  have hd3: "\<not> in_cls Space (hd (''Celsius'' @ rest))"
    by (simp add: is_space_def)
  have e5: "re_match [Lit ''Celsius''] [ds] None (''Celsius'' @ rest) = Some ([ds], rest)"
    by (subst re_match_Lit_append) simp
  have e4: "re_match [Plus Space, Lit ''Celsius''] [ds] None (ws2 @ ''Celsius'' @ rest)
            = Some ([ds], rest)"
    using w2 hd3 e5 by (intro re_match_Plus_run) simp_all
  have e3: "re_match [Close, Plus Space, Lit ''Celsius''] [] (Some ds) (ws2 @ ''Celsius'' @ rest)
            = Some ([ds], rest)"
    using e4 by simp
  have e2: "re_match [Plus Digit, Close, Plus Space, Lit ''Celsius''] [] (Some [])
              (ds @ ws2 @ ''Celsius'' @ rest) = Some ([ds], rest)"
    using d hd2 e3 by (intro re_match_Plus_run) simp_all
  have e1: "re_match [Open, Plus Digit, Close, Plus Space, Lit ''Celsius''] [] None
              (ds @ ws2 @ ''Celsius'' @ rest) = Some ([ds], rest)"
    using e2 by simp
  have e0: "re_match [Plus Space, Open, Plus Digit, Close, Plus Space, Lit ''Celsius''] [] None
              (ws1 @ ds @ ws2 @ ''Celsius'' @ rest) = Some ([ds], rest)"
    using w1 hd1 e1 by (intro re_match_Plus_run) simp_all
  show ?thesis
    unfolding rx_temperature_def re_match_Lit_append option.map by (rule e0)
qed

lemma first_char_unique_temperature: "first_char_unique ''Temperature:''"
  by (simp add: first_char_unique_def)

lemma first_char_unique_after_test: "first_char_unique ''after test''"
  by (simp add: first_char_unique_def)

lemma re_search_temperature_line:
  assumes a: "\<not> contains ''Temperature:'' pre"
    and w1: "ws1 \<noteq> []" "\<forall>c\<in>set ws1. is_space c"
    and d: "ds \<noteq> []" "\<forall>c\<in>set ds. is_digit c"
    and w2: "ws2 \<noteq> []" "\<forall>c\<in>set ws2. is_space c"
  shows "re_search rx_temperature (pre @ ''Temperature:'' @ ws1 @ ds @ ws2 @ ''Celsius'' @ rest)
         = Some [ds]"
proof -
  have "re_search rx_temperature (pre @ ''Temperature:'' @ ws1 @ ds @ ws2 @ ''Celsius'' @ rest)
        = re_search rx_temperature (''Temperature:'' @ ws1 @ ds @ ws2 @ ''Celsius'' @ rest)"
    unfolding rx_temperature_def
    using first_char_unique_temperature a by (rule re_search_Lit_skip)
  also have "\<dots> = Some [ds]"
    using re_match_temperature_line[OF w1 d w2] by (rule re_search_hit)
  finally show ?thesis .
qed

lemma re_search_first:
  assumes "i \<le> length s"
    and "\<And>j. j < i \<Longrightarrow> re_match rx [] None (drop j s) = None"
    and "re_match rx [] None (drop i s) = Some (gs, r)"
  shows "re_search rx s = Some gs"
proof -
  have "re_search rx (take i s @ drop i s) = re_search rx (drop i s)"
  proof (rule re_search_skip)
    fix j assume "j < length (take i s)"
    then have "j < i" by simp
    then have "re_match rx [] None (drop j s) = None" by (rule assms(2))
    then show "re_match rx [] None (drop j (take i s @ drop i s)) = None" by simp
  qed
  also have "\<dots> = Some gs" using assms(3) by (rule re_search_hit)
  finally show ?thesis by simp
qed

section \<open>Facts about the parser\<close>

text \<open>Each block as one update of the record it is given.\<close>

lemma parse_specs_eq:
  "parse_specs c d =
     d\<lparr>model := (case re_search rx_model c of Some m \<Rightarrow> py_strip (group 1 m) | None \<Rightarrow> model d),
       serial := (case re_search rx_serial c of Some m \<Rightarrow> py_strip (group 1 m) | None \<Rightarrow> serial d),
       firmware := (case re_search rx_firmware c of Some m \<Rightarrow> py_strip (group 1 m) | None \<Rightarrow> firmware d),
       capacity := (case re_search rx_capacity c of Some m \<Rightarrow> py_strip (group 1 m) | None \<Rightarrow> capacity d),
       nvme_version := (case re_search rx_nvme_version c of Some m \<Rightarrow> py_strip (group 1 m) | None \<Rightarrow> nvme_version d)\<rparr>"
  by (simp add: parse_specs_def Let_def split: option.split)

lemma parse_smart_before_eq:
  "parse_smart_before c d =
     d\<lparr>health_status := (case re_search rx_health c of Some m \<Rightarrow> py_strip (group 1 m) | None \<Rightarrow> health_status d),
       temp_before := (case re_search rx_temperature c of Some m \<Rightarrow> group 1 m | None \<Rightarrow> temp_before d),
       percentage_used := (case re_search rx_percentage c of Some m \<Rightarrow> py_strip (group 1 m) | None \<Rightarrow> percentage_used d)\<rparr>"
  by (simp add: parse_smart_before_def Let_def split: option.split)

lemma parse_after_test_eq:
  "parse_after_test c d =
     (if length (split_str ''after test'' c) > 1 then
        d\<lparr>temp_after := (case re_search rx_temperature (last (split_str ''after test'' c)) of
                           Some m \<Rightarrow> group 1 m | None \<Rightarrow> temp_after d),
          temp_sensors_after := map (\<lambda>m. (''Sensor '' @ group 1 m, group 2 m))
                                  (re_findall rx_temp_sensor (last (split_str ''after test'' c))),
          data_read := (case re_search rx_data_read (last (split_str ''after test'' c)) of
                          Some m \<Rightarrow> py_strip (group 2 m) | None \<Rightarrow> data_read d),
          data_written := (case re_search rx_data_written (last (split_str ''after test'' c)) of
                             Some m \<Rightarrow> py_strip (group 2 m) | None \<Rightarrow> data_written d)\<rparr>
      else d)"
  by (simp add: parse_after_test_def Let_def split: option.split)

lemma parse_fio_metrics_eq:
  "parse_fio_metrics c d =
     d\<lparr>read_bw := (case re_search rx_read_perf c of Some m \<Rightarrow> group 1 m @ '' MiB/s'' | None \<Rightarrow> read_bw d),
       read_iops := (case re_search rx_read_iops c of Some m \<Rightarrow> group 1 m | None \<Rightarrow> read_iops d),
       write_bw := (case re_search rx_write_perf c of Some m \<Rightarrow> group 1 m @ '' MiB/s'' | None \<Rightarrow> write_bw d),
       write_iops := (case re_search rx_write_iops c of Some m \<Rightarrow> group 1 m | None \<Rightarrow> write_iops d),
       checkpoint_write_bw := (case re_search rx_checkpoint c of Some m \<Rightarrow> group 1 m @ '' MiB/s'' | None \<Rightarrow> checkpoint_write_bw d),
       checkpoint_write_iops := (case re_search rx_checkpoint_iops c of Some m \<Rightarrow> group 1 m | None \<Rightarrow> checkpoint_write_iops d)\<rparr>"
  by (simp add: parse_fio_metrics_def Let_def split: option.split)

lemma parse_errors_eq:
  "parse_errors c d =
     d\<lparr>errors := (case re_search rx_error_entries c of
                     Some m \<Rightarrow> (case py_int (group 1 m) of Some n \<Rightarrow> n | None \<Rightarrow> errors d)
                   | None \<Rightarrow> errors d)\<rparr>"
  by (simp add: parse_errors_def split: option.split)

lemma parse_after_test_fields:
  "parse_after_test c d =
     d\<lparr>temp_after :=
         (if length (split_str ''after test'' c) > 1
          then (case re_search rx_temperature (last (split_str ''after test'' c)) of
                  Some m \<Rightarrow> group 1 m | None \<Rightarrow> temp_after d)
          else temp_after d),
       temp_sensors_after :=
         (if length (split_str ''after test'' c) > 1
          then map (\<lambda>m. (''Sensor '' @ group 1 m, group 2 m))
                 (re_findall rx_temp_sensor (last (split_str ''after test'' c)))
          else temp_sensors_after d),
       data_read :=
         (if length (split_str ''after test'' c) > 1
          then (case re_search rx_data_read (last (split_str ''after test'' c)) of
                  Some m \<Rightarrow> py_strip (group 2 m) | None \<Rightarrow> data_read d)
          else data_read d),
       data_written :=
         (if length (split_str ''after test'' c) > 1
          then (case re_search rx_data_written (last (split_str ''after test'' c)) of
                  Some m \<Rightarrow> py_strip (group 2 m) | None \<Rightarrow> data_written d)
          else data_written d)\<rparr>"
  by (simp add: parse_after_test_eq)

lemmas parse_fields_eq = parse_specs_eq parse_smart_before_eq parse_after_test_fields
  parse_fio_metrics_eq parse_errors_eq

lemma parse_content_idem: "parse_content c (parse_content c d) = parse_content c d"
  by (simp add: parse_content_def Let_def parse_fields_eq cong: option.case_cong if_cong)

lemma parse_log_Some:
  "parse_log name (Some c) = parse_content c (init_data name)"
  by (simp add: parse_log_def parse_def)

lemma temp_before_parse_log:
  "temp_before (parse_log name (Some c)) =
     (case re_search rx_temperature c of Some m \<Rightarrow> group 1 m | None \<Rightarrow> ''Unknown'')"
  by (simp add: parse_log_Some parse_content_def Let_def parse_fields_eq init_data_def
      cong: option.case_cong if_cong)

lemma after_fields_parse_log:
  "temp_after (parse_log name (Some c)) =
     (if length (split_str ''after test'' c) > 1
      then (case re_search rx_temperature (last (split_str ''after test'' c)) of
              Some m \<Rightarrow> group 1 m | None \<Rightarrow> ''Unknown'')
      else ''Unknown'')"
  "temp_sensors_after (parse_log name (Some c)) =
     (if length (split_str ''after test'' c) > 1
      then map (\<lambda>m. (''Sensor '' @ group 1 m, group 2 m))
             (re_findall rx_temp_sensor (last (split_str ''after test'' c)))
      else [])"
  "data_read (parse_log name (Some c)) =
     (if length (split_str ''after test'' c) > 1
      then (case re_search rx_data_read (last (split_str ''after test'' c)) of
              Some m \<Rightarrow> py_strip (group 2 m) | None \<Rightarrow> ''Unknown'')
      else ''Unknown'')"
  "data_written (parse_log name (Some c)) =
     (if length (split_str ''after test'' c) > 1
      then (case re_search rx_data_written (last (split_str ''after test'' c)) of
              Some m \<Rightarrow> py_strip (group 2 m) | None \<Rightarrow> ''Unknown'')
      else ''Unknown'')"
  by (simp_all add: parse_log_Some parse_content_def Let_def parse_fields_eq init_data_def
      cong: option.case_cong if_cong)

lemma after_section_present:
  assumes "\<not> contains ''after test'' post"
  shows "last (split_str ''after test'' (pre @ ''after test'' @ post)) = post"
    and "1 < length (split_str ''after test'' (pre @ ''after test'' @ post))"
  using split_str_last[OF first_char_unique_after_test assms, of pre] by simp_all

lemma after_section_absent:
  assumes "\<not> contains ''after test'' c"
  shows "split_str ''after test'' c = [c]"
  using assms by (intro split_str_absent) simp_all

lemma group_1_single: "group 1 [g] = g"
  by (simp add: group_def)

lemmas rx_defs = rx_capacity_def rx_checkpoint_def rx_checkpoint_iops_def rx_data_read_def rx_data_written_def rx_error_entries_def rx_firmware_def rx_health_def rx_model_def rx_nvme_version_def rx_percentage_def rx_read_iops_def rx_read_perf_def rx_serial_def rx_temp_sensor_def rx_temperature_def rx_write_iops_def rx_write_perf_def

lemma parse_log_fields:
  "parse_log name (Some c) =
     (parse_errors c (parse_fio_metrics c (parse_after_test c (parse_smart_before c
        (parse_specs c (init_data name))))))"
  by (simp add: parse_log_Some parse_content_def Let_def)

lemma parse_log_empty: "parse_log name (Some []) = init_data name"
  by (simp add: parse_log_fields parse_fields_eq rx_defs split_str.simps init_data_def)

section \<open>Facts about the division of integers\<close>

lemma bitlen_le: "n < 2 ^ k \<Longrightarrow> bitlen n \<le> k"
proof (induction k arbitrary: n)
  case 0
  then show ?case by (simp add: bitlen.simps)
next
  case (Suc k)
  show ?case
  proof (cases "n = 0")
    case True
    then show ?thesis by (simp add: bitlen.simps)
  next
    case False
    from Suc.prems have "n div 2 < 2 ^ k" by simp
    then have "bitlen (n div 2) \<le> k" by (rule Suc.IH)
    with False show ?thesis by (subst bitlen.simps) simp
  qed
qed

lemma bitlen_4: "bitlen 4 = 3" by (simp add: bitlen.simps)
lemma bitlen_3: "bitlen 3 = 2" by (simp add: bitlen.simps)

lemma int_truediv_4_3: "int_truediv 4 3 = Some (6004799503160661 / 4503599627370496)"
  by (simp add: int_truediv_def bitlen_4 bitlen_3 round_half_even_def Let_def)

lemma bitlen_gt: "n < 2 ^ bitlen n"
proof (induction n rule: bitlen.induct)
  case (1 n)
  show ?case
  proof (cases "n = 0")
    case True
    then show ?thesis by simp
  next
    case False
    then have "n div 2 < 2 ^ bitlen (n div 2)" by (rule 1)
    then have "n < 2 * 2 ^ bitlen (n div 2)" by arith
    moreover have "bitlen n = Suc (bitlen (n div 2))" using False by (subst bitlen.simps) simp
    ultimately show ?thesis by simp
  qed
qed

lemma bitlen_pos: "0 < n \<Longrightarrow> 0 < bitlen n"
  by (subst bitlen.simps) simp

lemma round_half_even_exact: "0 < d \<Longrightarrow> round_half_even (t * d) d = t"
  by (simp add: round_half_even_def)


lemma int_truediv_unfold:
  assumes "b \<noteq> 0" "n = nat \<bar>a\<bar>" "d = nat \<bar>b\<bar>"
    and "k = int (bitlen n) - int (bitlen d)"
    and "e = (if (if 0 \<le> k then d * 2 ^ nat k \<le> n else d \<le> n * 2 ^ nat (- k)) then k else k - 1)"
    and "q = max e (- 1022) - 52"
    and "v = (if 0 \<le> q
              then of_nat (round_half_even n (d * 2 ^ nat q) * 2 ^ nat q)
              else of_nat (round_half_even (n * 2 ^ nat (- q)) d) / of_nat (2 ^ nat (- q)))"
  shows "int_truediv a b = (if 2 ^ 1024 \<le> v then None else Some (of_int (sgn a * sgn b) * v))"
  unfolding assms(2-7) using assms(1) by (simp only: int_truediv_def Let_def if_False)

text \<open>A quotient that is an integer below \<open>2 ^ 53\<close> is a float: the division is exact.\<close>

lemma int_truediv_exact:
  assumes b: "0 < b" and dv: "b dvd a" and lt: "\<bar>a div b\<bar> < 2 ^ 53"
  shows "int_truediv a b = Some (of_int (a div b))"
proof -
  define t where "t = a div b"
  have a: "a = t * b" using dv by (simp add: t_def)
  define T where "T = nat \<bar>t\<bar>"
  define d where "d = nat \<bar>b\<bar>"
  define n where "n = nat \<bar>a\<bar>"
  have d0: "0 < d" using b by (simp add: d_def)
  have n: "n = T * d"
    using b by (simp add: n_def T_def d_def a abs_mult nat_mult_distrib)
  have T53: "T < 2 ^ 53" using lt by (simp add: T_def t_def nat_less_iff)
  define k where "k = int (bitlen n) - int (bitlen d)"
  define e where
    "e = (if (if 0 \<le> k then d * 2 ^ nat k \<le> n else d \<le> n * 2 ^ nat (- k)) then k else k - 1)"
  define q where "q = max e (- 1022) - 52"
  define v :: rat where
    "v = (if 0 \<le> q
          then of_nat (round_half_even n (d * 2 ^ nat q) * 2 ^ nat q)
          else of_nat (round_half_even (n * 2 ^ nat (- q)) d) / of_nat (2 ^ nat (- q)))"
  have "n < 2 ^ 53 * 2 ^ bitlen d"
  proof (cases "T = 0")
    case True
    then show ?thesis by (simp add: n)
  next
    case False
    have "T * d < 2 ^ 53 * 2 ^ bitlen d"
      using T53 bitlen_gt[of d] by (intro mult_strict_mono) simp_all
    then show ?thesis by (simp only: n)
  qed
  then have "n < 2 ^ (53 + bitlen d)" by (simp only: power_add)
  then have "bitlen n \<le> 53 + bitlen d" by (rule bitlen_le)
  then have k53: "k \<le> 53" by (simp add: k_def)
  have e52: "e \<le> 52"
  proof (cases "k = 53")
    case True
    have "\<not> d * 2 ^ 53 \<le> n"
    proof
      assume "d * 2 ^ 53 \<le> n"
      then have "d * 2 ^ 53 \<le> d * T" by (simp add: n mult.commute)
      then have "(2::nat) ^ 53 \<le> T" using d0 by simp
      with T53 show False by simp
    qed
    with True show ?thesis by (simp add: e_def)
  next
    case False
    with k53 have "k \<le> 52" by simp
    then show ?thesis by (simp add: e_def)
  qed
  then have q0: "q \<le> 0" by (simp add: q_def)
  have v: "v = of_nat T"
  proof (cases "0 \<le> q")
    case True
    with q0 have "q = 0" by simp
    then show ?thesis using d0 by (simp add: v_def n round_half_even_exact)
  next
    case False
    have "n * 2 ^ nat (- q) = (T * 2 ^ nat (- q)) * d" by (simp add: n)
    then have "round_half_even (n * 2 ^ nat (- q)) d = T * 2 ^ nat (- q)"
      using d0 by (simp only: round_half_even_exact)
    then show ?thesis using False by (simp add: v_def)
  qed
  have small: "\<not> (2 ^ 1024 \<le> v)"
  proof -
    have "T < 2 ^ 1024"
    proof -
      note T53
      also have "(2::nat) ^ 53 \<le> 2 ^ 1024" by (rule power_increasing) simp_all
      finally show ?thesis .
    qed
    then have "(of_nat T :: rat) < of_nat (2 ^ 1024)" by (simp only: of_nat_less_iff)
    then show ?thesis by (simp add: v)
  qed
  have sg: "of_int (sgn a * sgn b) * v = (of_int t :: rat)"
  proof -
    have "sgn a * sgn b * \<bar>t\<bar> = t" using b by (simp add: a sgn_mult mult_sgn_abs)
    moreover have "v = of_int \<bar>t\<bar>" by (simp add: v T_def)
    ultimately show ?thesis by (metis of_int_mult)
  qed
  have "int_truediv a b = (if 2 ^ 1024 \<le> v then None else Some (of_int (sgn a * sgn b) * v))"
    using b by (intro int_truediv_unfold[OF _ n_def d_def k_def e_def q_def v_def]) simp
  then show ?thesis by (simp only: small if_False sg t_def)
qed

section \<open>Facts about the peak artifact\<close>

lemma int_truediv_1024_exact:
  assumes "0 < n" "n < 2 ^ 53"
  shows "int_truediv_1024 n = Some (n div 1024)"
proof -
  have "nat n < 2 ^ 53" using assms by (simp add: nat_less_iff)
  then have b: "bitlen (nat n) \<le> 53" by (rule bitlen_le)
  then have r: "round53 (nat n) = nat n" by (simp add: round53_def)
  have "nat n < 2 ^ 1034"
  proof -
    have "nat n < 2 ^ 53" using assms by (simp add: nat_less_iff)
    also have "(2::nat) ^ 53 \<le> 2 ^ 1034" by (rule power_increasing) simp_all
    finally show ?thesis .
  qed
  moreover have "int (nat n div 1024) = n div 1024"
    using assms by (simp add: zdiv_int)
  ultimately show ?thesis using assms by (simp add: int_truediv_1024_def r Let_def)
qed

text \<open>
  Above \<open>2 ^ 53\<close> the float division rounds: for \<open>2 ^ 63 - 1\<close> Python returns \<open>2 ^ 53\<close>,
  one more than the integer quotient.
\<close>

lemma bitlen_63: "bitlen 9223372036854775807 = 63"
  by (simp add: bitlen.simps)

lemma int_truediv_1024_rounds:
  "int_truediv_1024 9223372036854775807 = Some 9007199254740992
   \<and> 9223372036854775807 div (1024::int) = 9007199254740991"
  by (simp add: int_truediv_1024_def round53_def bitlen_63 Let_def)

lemma py_in_JObj: "py_in k (JObj kvs) = Some (map_of kvs k \<noteq> None)"
  by (simp add: py_in_def map_of_eq_None_iff)

lemma py_getitem_JObj: "py_getitem (JObj kvs) k = map_of kvs k"
  by (simp add: py_getitem_def)

text \<open>The body of \<open>parse_fio_json\<close> on a dictionary whose \<open>jobs\<close> is a list that is not empty.\<close>

lemma fio_body_jobs:
  assumes "map_of kvs ''jobs'' = Some (JArr (job # rest))"
  shows "fio_body (JObj kvs) =
           do {
             rd \<leftarrow> has_bw ''read'' job;
             if rd then do { v \<leftarrow> return_bw ''read'' job; Some (Some v) }
             else
               do {
                 wr \<leftarrow> has_bw ''write'' job;
                 if wr then do { v \<leftarrow> return_bw ''write'' job; Some (Some v) }
                 else Some None
               }
           }"
  using assms by (simp add: fio_body_def py_in_JObj py_getitem_JObj py_len_def py_first_def)

text \<open>The condition of one branch on a job that is a dictionary.\<close>

lemma has_bw_JObj:
  "has_bw key (JObj jkv) =
     (case map_of jkv key of
        None \<Rightarrow> Some False
      | Some sub \<Rightarrow>
          (case py_in ''bw'' sub of
             None \<Rightarrow> None
           | Some b \<Rightarrow> if b then Option.bind (py_getitem sub ''bw'') py_gt0 else Some False))"
  by (cases "map_of jkv key") (auto simp: has_bw_def py_in_JObj py_getitem_JObj split: option.split)

lemma has_bw_int:
  assumes "map_of jkv key = Some (JObj r)" "map_of r ''bw'' = Some (JInt n)"
  shows "has_bw key (JObj jkv) = Some (0 < n)"
  using assms by (simp add: has_bw_JObj py_in_JObj py_getitem_JObj py_gt0_def)

lemma has_bw_absent:
  assumes "map_of jkv key = None
           \<or> (\<exists>r. map_of jkv key = Some (JObj r) \<and> map_of r ''bw'' = None)"
  shows "has_bw key (JObj jkv) = Some False"
  using assms by (auto simp: has_bw_JObj py_in_JObj)

lemma return_bw_int:
  assumes "map_of jkv key = Some (JObj r)" "map_of r ''bw'' = Some (JInt n)"
  shows "return_bw key (JObj jkv) = int_truediv_1024 n"
  using assms by (simp add: return_bw_def py_getitem_JObj py_div_1024_int_def)

lemma parse_fio_json_Some: "parse_fio_json (Some data) = (case fio_body data of None \<Rightarrow> None | Some r \<Rightarrow> r)"
  by (simp add: parse_fio_json_def)

lemma parse_fio_json_read:
  assumes "map_of kvs ''jobs'' = Some (JArr (JObj jkv # rest))"
    and "map_of jkv ''read'' = Some (JObj r)" "map_of r ''bw'' = Some (JInt n)" "0 < n"
  shows "parse_fio_json (Some (JObj kvs)) = int_truediv_1024 n"
  using assms(4)
  by (cases "int_truediv_1024 n")
    (simp_all add: parse_fio_json_Some fio_body_jobs[OF assms(1)] has_bw_int[OF assms(2,3)]
      return_bw_int[OF assms(2,3)])

lemma parse_fio_json_write:
  assumes "map_of kvs ''jobs'' = Some (JArr (JObj jkv # rest))"
    and "has_bw ''read'' (JObj jkv) = Some False"
    and "map_of jkv ''write'' = Some (JObj w)" "map_of w ''bw'' = Some (JInt m)" "0 < m"
  shows "parse_fio_json (Some (JObj kvs)) = int_truediv_1024 m"
  using assms(5)
  by (cases "int_truediv_1024 m")
    (simp_all add: parse_fio_json_Some fio_body_jobs[OF assms(1)] assms(2)
      has_bw_int[OF assms(3,4)] return_bw_int[OF assms(3,4)])

lemma parse_fio_json_neither:
  assumes "map_of kvs ''jobs'' = Some (JArr (JObj jkv # rest))"
    and "has_bw ''read'' (JObj jkv) = Some False" "has_bw ''write'' (JObj jkv) = Some False"
  shows "parse_fio_json (Some (JObj kvs)) = None"
  by (simp add: parse_fio_json_Some fio_body_jobs[OF assms(1)] assms(2,3))

lemma parse_fio_json_first_job:
  assumes "map_of kvs ''jobs'' = Some (JArr (job # rest))"
  shows "parse_fio_json (Some (JObj kvs)) = parse_fio_json (Some (JObj [(''jobs'', JArr [job])]))"
proof -
  have "map_of [(''jobs'', JArr [job])] ''jobs'' = Some (JArr (job # []))" by simp
  then have "fio_body (JObj [(''jobs'', JArr [job])]) = fio_body (JObj kvs)"
    unfolding fio_body_jobs[OF assms] by (rule fio_body_jobs)
  then show ?thesis by (simp only: parse_fio_json_Some)
qed

lemma merge_peak_read:
  "peak_read_bw (merge_peak data (Some file) write_json) =
     (case parse_fio_json file of
        None \<Rightarrow> peak_read_bw data
      | Some v \<Rightarrow> if v \<noteq> 0 then Some (show_int v @ '' MiB/s'') else peak_read_bw data)"
  by (simp add: merge_peak_def Let_def split: option.split)

lemma merge_peak_write:
  "peak_write_bw (merge_peak data read_json (Some file)) =
     (case parse_fio_json file of
        None \<Rightarrow> peak_write_bw data
      | Some v \<Rightarrow> if v \<noteq> 0 then Some (show_int v @ '' MiB/s'') else peak_write_bw data)"
  by (simp add: merge_peak_def Let_def split: option.split)

lemma parse_log_peak_unset:
  "peak_read_bw (parse_log name logf) = None" "peak_write_bw (parse_log name logf) = None"
  by (cases logf; simp add: parse_log_def parse_def parse_content_def Let_def parse_fields_eq
      init_data_def)+

lemma avg_peak_skip: "key d = None \<Longrightarrow> avg_peak key (d # ds) = avg_peak key ds"
  by (simp add: avg_peak_def dict_get_def)

lemma has_bw_zero:
  assumes "map_of jkv key = None
           \<or> (\<exists>r. map_of jkv key = Some (JObj r)
                \<and> (map_of r ''bw'' = None \<or> (\<exists>k. map_of r ''bw'' = Some (JInt k) \<and> k \<le> 0)))"
  shows "has_bw key (JObj jkv) = Some False"
  using assms by (auto simp: has_bw_JObj py_in_JObj py_getitem_JObj py_gt0_def)

lemma show_int_2000: "show_int 2000 = ''2000''"
  by (simp add: show_int_def show_nat.simps digit_char_def)

lemma has_bw_cong:
  "map_of jkv key = map_of jkv' key \<Longrightarrow> has_bw key (JObj jkv) = has_bw key (JObj jkv')"
  by (simp add: has_bw_JObj)

lemma return_bw_cong:
  "map_of jkv key = map_of jkv' key \<Longrightarrow> return_bw key (JObj jkv) = return_bw key (JObj jkv')"
  by (simp add: return_bw_def py_getitem_JObj)

text \<open>When the condition on \<open>read\<close> is not false, the result is decided by \<open>read\<close> alone.\<close>

lemma parse_fio_json_read_decides:
  assumes "map_of kvs ''jobs'' = Some (JArr (JObj jkv # rest))"
    and "has_bw ''read'' (JObj jkv) \<noteq> Some False"
  shows "parse_fio_json (Some (JObj kvs)) =
           (case has_bw ''read'' (JObj jkv) of
              None \<Rightarrow> None
            | Some b \<Rightarrow> return_bw ''read'' (JObj jkv))"
proof (cases "has_bw ''read'' (JObj jkv)")
  case None
  then show ?thesis
    by (simp add: parse_fio_json_Some fio_body_jobs[OF assms(1)])
next
  case (Some b)
  with assms(2) have b by simp
  with Some show ?thesis
    by (cases "return_bw ''read'' (JObj jkv)")
      (simp_all add: parse_fio_json_Some fio_body_jobs[OF assms(1)])
qed

lemma has_bw_False_cases:
  assumes "has_bw key (JObj jkv) = Some False"
  shows "map_of jkv key = None
         \<or> (\<exists>sub. map_of jkv key = Some sub
               \<and> (py_in ''bw'' sub = Some False
                    \<or> (\<exists>bw. py_getitem sub ''bw'' = Some bw \<and> py_gt0 bw = Some False)))"
proof (cases "map_of jkv key")
  case None
  then show ?thesis by simp
next
  case (Some sub)
  with assms have
    "(case py_in ''bw'' sub of None \<Rightarrow> None
      | Some b \<Rightarrow> if b then Option.bind (py_getitem sub ''bw'') py_gt0 else Some False) = Some False"
    by (simp add: has_bw_JObj)
  then have "py_in ''bw'' sub = Some False
             \<or> (\<exists>bw. py_getitem sub ''bw'' = Some bw \<and> py_gt0 bw = Some False)"
    by (auto split: option.splits if_splits simp: bind_eq_Some_conv)
  with Some show ?thesis by simp
qed

lemma int_truediv_1024_2048: "int_truediv_1024 2048 = Some 2"
  using int_truediv_1024_exact[of 2048] by simp

section \<open>Facts about the renderer\<close>

lemma foldl_append_acc:
  "foldl (\<lambda>h x. h @ f x) h0 xs = h0 @ concat (map f xs)"
  by (induction xs arbitrary: h0) simp_all

text \<open>The text that one drive adds to the page.\<close>

lemma add_card_append: "add_card env html d = html @ add_card env [] d"
  by (simp add: add_card_def Let_def foldl_append_acc)

lemma add_card_peak_append: "add_card_peak env html d = html @ add_card_peak env [] d"
  by (simp add: add_card_peak_def Let_def foldl_append_acc)

lemma foldl_add_card:
  "foldl (add_card env) html ds = html @ concat (map (add_card env []) ds)"
proof (induction ds arbitrary: html)
  case Nil
  then show ?case by simp
next
  case (Cons d ds)
  have "foldl (add_card env) html (d # ds) = foldl (add_card env) (html @ add_card env [] d) ds"
    by (simp add: add_card_append[of env html d])
  then show ?case by (simp add: Cons.IH)
qed

lemma foldl_add_card_peak:
  "foldl (add_card_peak env) html ds = html @ concat (map (add_card_peak env []) ds)"
proof (induction ds arbitrary: html)
  case Nil
  then show ?case by simp
next
  case (Cons d ds)
  have "foldl (add_card_peak env) html (d # ds)
        = foldl (add_card_peak env) (html @ add_card_peak env [] d) ds"
    by (simp add: add_card_peak_append[of env html d])
  then show ?case by (simp add: Cons.IH)
qed

lemma generate_html_report_eq:
  "generate_html_report env so wo now ds =
     report_head env so wo ds
     @ concat (map (add_card env []) (sort_key drive_name ds))
     @ report_footer env so wo now"
  by (simp add: generate_html_report_def Let_def foldl_add_card)

lemma passed_count_mset:
  assumes m: "mset ds' = mset ds"
  shows "passed_count ds' = passed_count ds"
proof -
  let ?P = "\<lambda>d. health_status d = ''PASSED'' \<and> errors d = 0"
  have "size (mset (filter ?P ds')) = size (mset (filter ?P ds))"
    by (simp only: mset_filter m)
  then have "length (filter ?P ds') = length (filter ?P ds)"
    by (simp only: size_mset)
  then show ?thesis
    by (simp only: passed_count_def sum_list_ones)
qed

lemma report_head_mset:
  assumes m: "mset ds' = mset ds"
  shows "report_head env so wo ds' = report_head env so wo ds"
proof -
  have l: "length ds' = length ds" using m by (rule mset_eq_length)
  have p: "passed_count ds' = passed_count ds" using m by (rule passed_count_mset)
  show ?thesis by (simp only: report_head_def l p)
qed

text \<open>A list with distinct keys has one sorted arrangement.\<close>

lemma filter_key_distinct:
  "distinct (map f xs) \<Longrightarrow> k \<in> set xs \<Longrightarrow> filter (\<lambda>x. f k = f x) xs = [k]"
proof (induction xs)
  case Nil
  then show ?case by simp
next
  case (Cons x xs)
  show ?case
  proof (cases "k = x")
    case True
    have "filter (\<lambda>y. f x = f y) xs = []"
      using Cons.prems(1) by (auto simp: filter_empty_conv)
    with True show ?thesis by simp
  next
    case False
    with Cons.prems have k: "k \<in> set xs" by simp
    then have "f k \<in> f ` set xs" by (rule imageI)
    moreover have "f x \<notin> f ` set xs" using Cons.prems(1) by simp
    ultimately have "f k \<noteq> f x" by metis
    with Cons.IH k Cons.prems(1) show ?thesis by simp
  qed
qed

lemma sort_key_mset_distinct:
  assumes "mset ds' = mset ds" "distinct (map f ds)"
  shows "sort_key f ds' = sort_key f ds"
proof (rule properties_for_sort_key)
  show "mset (sort_key f ds) = mset ds'" using assms by simp
  show "sorted (map f (sort_key f ds))" by simp
  fix k assume k: "k \<in> set (sort_key f ds)"
  have "mset (map f ds') = mset (map f ds)" using assms(1) by simp
  then have d: "distinct (map f ds')"
    using assms(2) mset_eq_imp_distinct_iff by blast
  have ks: "k \<in> set ds'" using k assms(1) mset_eq_setD by fastforce
  have d1: "distinct (map f (sort_key f ds))" using assms(2) by (simp add: distinct_map)
  have "filter (\<lambda>x. f k = f x) (sort_key f ds) = [k]" using d1 k by (rule filter_key_distinct)
  moreover have "filter (\<lambda>x. f k = f x) ds' = [k]" using d ks by (rule filter_key_distinct)
  ultimately show "filter (\<lambda>x. f k = f x) (sort_key f ds) = filter (\<lambda>x. f k = f x) ds'"
    by (rule trans[OF _ sym])
qed

lemma generate_html_report_with_peak_eq:
  "generate_html_report_with_peak env so wo now ds =
     (case avg_peak peak_read_bw ds of
        None \<Rightarrow> None
      | Some ar \<Rightarrow>
          (case avg_peak peak_write_bw ds of
             None \<Rightarrow> None
           | Some aw \<Rightarrow>
               Some (report_head env so wo ds
                     @ concat (map (add_card_peak env []) (sort_key drive_name ds))
                     @ report_footer_peak env so wo now ar aw)))"
  unfolding generate_html_report_with_peak_def Let_def foldl_add_card_peak
  by (cases "avg_peak peak_read_bw ds"; cases "avg_peak peak_write_bw ds") simp_all

lemma those_None_iff: "those xs = None \<longleftrightarrow> None \<in> set xs"
  by (induction xs) (auto split: option.splits)

lemma those_Some_map: "those xs = Some ys \<Longrightarrow> ys = map the xs"
  by (induction xs arbitrary: ys) (auto split: option.splits)

text \<open>The average of a peak field without the list traversal.\<close>

lemma avg_peak_eq:
  "avg_peak key ds =
     (if \<exists>d\<in>set ds. dict_get (key d) ''N/A'' \<noteq> ''N/A'' \<and> peak_value (key d) = None then None
      else int_truediv
             (sum_list (map (\<lambda>d. the (peak_value (key d)))
                          (filter (\<lambda>d. dict_get (key d) ''N/A'' \<noteq> ''N/A'') ds)))
             (max (int (length (filter (\<lambda>d. dict_get (key d) ''N/A'' \<noteq> ''N/A'') ds))) 1))"
proof -
  let ?present = "filter (\<lambda>d. dict_get (key d) ''N/A'' \<noteq> ''N/A'') ds"
  let ?vs = "map (\<lambda>d. peak_value (key d)) ?present"
  show ?thesis
  proof (cases "those ?vs")
    case None
    then have "None \<in> set ?vs" by (simp only: those_None_iff)
    then have "\<exists>d\<in>set ds. dict_get (key d) ''N/A'' \<noteq> ''N/A'' \<and> peak_value (key d) = None"
      by (auto simp: image_iff)
    with None show ?thesis by (simp add: avg_peak_def)
  next
    case (Some ys)
    then have "None \<notin> set ?vs"
      using those_None_iff[of ?vs] by simp
    then have n: "\<not> (\<exists>d\<in>set ds. dict_get (key d) ''N/A'' \<noteq> ''N/A'' \<and> peak_value (key d) = None)"
      by (auto simp: image_iff)
    have "ys = map the ?vs" using Some by (rule those_Some_map)
    then have ys: "ys = map (\<lambda>d. the (peak_value (key d))) ?present" by (simp add: comp_def)
    have "avg_peak key ds =
            int_truediv (sum_list (map (\<lambda>d. the (peak_value (key d))) ?present))
              (max (int (length ?present)) 1)"
      by (simp add: avg_peak_def Some ys sum_list_ones Let_def)
    then show ?thesis by (simp only: n if_False)
  qed
qed

lemma avg_peak_mset:
  assumes m: "mset ds' = mset ds"
  shows "avg_peak key ds' = avg_peak key ds"
proof -
  let ?Q = "\<lambda>d. dict_get (key d) ''N/A'' \<noteq> ''N/A''"
  let ?g = "\<lambda>d. the (peak_value (key d))"
  have s: "set ds' = set ds" using m by (rule mset_eq_setD)
  have pm: "mset (filter ?Q ds') = mset (filter ?Q ds)" by (simp only: mset_filter m)
  then have l: "length (filter ?Q ds') = length (filter ?Q ds)" by (rule mset_eq_length)
  have "mset (map ?g (filter ?Q ds')) = mset (map ?g (filter ?Q ds))"
    by (simp only: mset_map pm)
  then have "sum_mset (mset (map ?g (filter ?Q ds'))) = sum_mset (mset (map ?g (filter ?Q ds)))"
    by simp
  then have t: "sum_list (map ?g (filter ?Q ds')) = sum_list (map ?g (filter ?Q ds))"
    by (simp only: sum_mset_sum_list)
  show ?thesis by (simp only: avg_peak_eq s l t)
qed

section \<open>Facts about decimal text\<close>

lemma digit_char_is_digit: "n < 10 \<Longrightarrow> is_digit (digit_char n)"
proof -
  assume "n < 10"
  then have "n \<in> {0, 1, 2, 3, 4, 5, 6, 7, 8, 9}" by auto
  then show ?thesis by (auto simp: digit_char_def is_digit_def)
qed

lemma digit_val_digit_char: "n < 10 \<Longrightarrow> digit_val (digit_char n) = n"
proof -
  assume "n < 10"
  then have "n \<in> {0, 1, 2, 3, 4, 5, 6, 7, 8, 9}" by auto
  then show ?thesis by (auto simp: digit_char_def digit_val_def)
qed

lemma show_nat_digits: "show_nat n \<noteq> [] \<and> (\<forall>c\<in>set (show_nat n). is_digit c)"
proof (induction n rule: show_nat.induct)
  case (1 n)
  show ?case
  proof (cases "n < 10")
    case True
    then show ?thesis by (subst (1 2) show_nat.simps) (simp add: digit_char_is_digit)
  next
    case False
    then have "show_nat n = show_nat (n div 10) @ [digit_char (n mod 10)]"
      by (subst show_nat.simps) simp
    moreover have "is_digit (digit_char (n mod 10))" by (rule digit_char_is_digit) simp
    ultimately show ?thesis using 1 False by simp
  qed
qed

lemma digits_value_snoc: "digits_value (ds @ [c]) = 10 * digits_value ds + digit_val c"
  by (simp add: digits_value_def)

lemma digits_value_show_nat: "digits_value (show_nat n) = n"
proof (induction n rule: show_nat.induct)
  case (1 n)
  show ?case
  proof (cases "n < 10")
    case True
    then show ?thesis
      by (subst show_nat.simps) (simp add: digits_value_def digit_val_digit_char)
  next
    case False
    then have "show_nat n = show_nat (n div 10) @ [digit_char (n mod 10)]"
      by (subst show_nat.simps) simp
    then have "digits_value (show_nat n) = 10 * digits_value (show_nat (n div 10)) + n mod 10"
      by (simp add: digits_value_snoc digit_val_digit_char)
    with 1 False show ?thesis by simp
  qed
qed

lemma int_body_digits: "ds \<noteq> [] \<Longrightarrow> \<forall>c\<in>set ds. is_digit c \<Longrightarrow> int_body ds"
proof (induction ds rule: int_body.induct)
  case 1
  then show ?case by simp
next
  case (2 c)
  then show ?case by simp
next
  case (3 c d r)
  have "d \<noteq> CHR ''_''" using 3(4) by (auto simp: is_digit_def)
  with 3 show ?case by simp
qed

lemma py_strip_no_space:
  "\<forall>c\<in>set s. \<not> is_space c \<Longrightarrow> py_strip s = s"
proof -
  assume a: "\<forall>c\<in>set s. \<not> is_space c"
  then have 1: "dropWhile is_space s = s" by (cases s) simp_all
  from a have "\<forall>c\<in>set (rev s). \<not> is_space c" by simp
  then have 2: "dropWhile is_space (rev s) = rev s" by (cases "rev s") simp_all
  show ?thesis by (simp add: py_strip_def 1 2)
qed

lemma py_int_show_nat: "py_int (show_nat n) = Some (int n)"
proof -
  have d: "show_nat n \<noteq> []" "\<forall>c\<in>set (show_nat n). is_digit c"
    using show_nat_digits[of n] by simp_all
  have s: "py_strip (show_nat n) = show_nat n"
    using d(2) by (intro py_strip_no_space) (auto dest: is_digit_not_space)
  have h: "is_digit (hd (show_nat n))" using d by (rule hd_all)
  then have sg: "hd (show_nat n) \<noteq> CHR ''-''" "hd (show_nat n) \<noteq> CHR ''+''"
    by (auto simp: is_digit_def)
  have f: "filter is_digit (show_nat n) = show_nat n" using d(2) by simp
  have b: "int_body (show_nat n)" using d by (rule int_body_digits)
  show ?thesis by (simp add: py_int_def s sg f b digits_value_show_nat Let_def)
qed

lemma py_int_show_int: "py_int (show_int i) = Some i"
proof (cases "i < 0")
  case False
  then show ?thesis by (simp add: show_int_def py_int_show_nat)
next
  case True
  let ?n = "nat (- i)"
  have d: "show_nat ?n \<noteq> []" "\<forall>c\<in>set (show_nat ?n). is_digit c"
    using show_nat_digits[of ?n] by simp_all
  have m: "\<not> is_space CHR ''-''" by (simp add: is_space_def)
  have "\<forall>c\<in>set (show_nat ?n). \<not> is_space c"
    using d(2) is_digit_not_space by blast
  with m have "\<forall>c\<in>set (CHR ''-'' # show_nat ?n). \<not> is_space c" by simp
  then have s: "py_strip (CHR ''-'' # show_nat ?n) = CHR ''-'' # show_nat ?n"
    by (rule py_strip_no_space)
  have f: "filter is_digit (show_nat ?n) = show_nat ?n" using d(2) by simp
  have b: "int_body (show_nat ?n)" using d by (rule int_body_digits)
  show ?thesis using True
    by (simp add: show_int_def py_int_def s f b digits_value_show_nat Let_def)
qed

lemma show_nat_no_space: "\<forall>c\<in>set (show_nat n). \<not> is_space c"
  using show_nat_digits[of n] is_digit_not_space by blast

lemma show_int_no_space: "\<forall>c\<in>set (show_int i). \<not> is_space c"
proof -
  have m: "\<not> is_space CHR ''-''" by (simp add: is_space_def)
  show ?thesis using m show_nat_no_space by (simp add: show_int_def)
qed

lemma show_int_nonempty: "show_int i \<noteq> []"
  using show_nat_digits by (simp add: show_int_def)

text \<open>The first word of a display text is its number.\<close>

lemma py_split_ws_display:
  "py_split_ws (show_int i @ '' MiB/s'') = show_int i # py_split_ws ''MiB/s''"
proof -
  let ?s = "show_int i @ '' MiB/s''"
  have ns: "\<forall>c\<in>set (show_int i). \<not> is_space c" by (rule show_int_no_space)
  have ne: "show_int i \<noteq> []" by (rule show_int_nonempty)
  have "\<not> is_space (hd (show_int i))" using ne ns by (rule hd_all)
  then have 1: "dropWhile is_space ?s = ?s" using ne by (cases "show_int i") simp_all
  have sp: "is_space CHR '' ''" by (simp add: is_space_def)
  have 2: "takeWhile (\<lambda>c. \<not> is_space c) ?s = show_int i"
    using ns sp by (simp add: takeWhile_append2 takeWhile_eq_all_conv[THEN iffD2])
  have 3: "dropWhile (\<lambda>c. \<not> is_space c) ?s = '' MiB/s''"
    using ns sp by (simp add: dropWhile_append2)
  have 4: "py_split_ws '' MiB/s'' = py_split_ws ''MiB/s''"
    by (subst (1 2) py_split_ws.simps) (simp add: is_space_def)
  have "py_split_ws ?s = show_int i # py_split_ws '' MiB/s''"
    using ne by (subst py_split_ws.simps) (simp only: 1 2 3 Let_def, simp)
  then show ?thesis by (simp only: 4)
qed

lemma peak_value_display: "peak_value (Some (show_int i @ '' MiB/s'')) = Some i"
  by (simp only: peak_value_def dict_get_def option.case py_split_ws_display list.case
      py_int_show_int)

lemma display_not_NA: "show_int i @ '' MiB/s'' \<noteq> ''N/A''"
proof -
  have "hd (show_int i @ '' MiB/s'') = hd (show_int i)"
    using show_int_nonempty by simp
  moreover have "hd (show_int i) \<noteq> CHR ''N''"
  proof (cases "i < 0")
    case True
    then show ?thesis by (simp add: show_int_def)
  next
    case False
    have n: "\<not> is_digit CHR ''N''" by (simp add: is_digit_def)
    have "is_digit (hd (show_nat (nat i)))"
      by (rule hd_all[OF show_nat_digits[THEN conjunct1] show_nat_digits[THEN conjunct2]])
    with n have "hd (show_nat (nat i)) \<noteq> CHR ''N''" by metis
    with False show ?thesis by (simp add: show_int_def)
  qed
  ultimately show ?thesis by auto
qed

lemma dict_get_display:
  "dict_get (map_option (\<lambda>n. show_int n @ '' MiB/s'') v) ''N/A'' \<noteq> ''N/A'' \<longleftrightarrow> v \<noteq> None"
  by (cases v) (simp_all add: dict_get_def display_not_NA)

lemma peak_value_map_display:
  "v \<noteq> None \<Longrightarrow> peak_value (map_option (\<lambda>n. show_int n @ '' MiB/s'') v) = v"
  by (cases v) (simp_all add: peak_value_display)

text \<open>The average over records whose peak texts are the display texts of numbers.\<close>

lemma avg_peak_display:
  assumes k: "\<forall>d\<in>set ds. key d = map_option (\<lambda>n. show_int n @ '' MiB/s'') (pv d)"
  shows "avg_peak key ds =
           int_truediv (sum_list (List.map_filter pv ds))
             (max (int (length (List.map_filter pv ds))) 1)"
proof -
  let ?Q = "\<lambda>d. dict_get (key d) ''N/A'' \<noteq> ''N/A''"
  have q: "filter ?Q ds = filter (\<lambda>d. pv d \<noteq> None) ds"
    using k by (intro filter_cong) (simp_all add: dict_get_display)
  have m: "map (\<lambda>d. the (peak_value (key d))) (filter (\<lambda>d. pv d \<noteq> None) ds)
           = map (the \<circ> pv) (filter (\<lambda>d. pv d \<noteq> None) ds)"
    using k by (intro map_cong) (simp_all add: peak_value_map_display)
  have mf: "List.map_filter pv ds = map (the \<circ> pv) (filter (\<lambda>d. pv d \<noteq> None) ds)"
    by (simp add: List.map_filter_def)
  have n: "\<not> (\<exists>d\<in>set ds. ?Q d \<and> peak_value (key d) = None)"
  proof
    assume "\<exists>d\<in>set ds. ?Q d \<and> peak_value (key d) = None"
    then obtain d where d: "d \<in> set ds" "?Q d" "peak_value (key d) = None" by blast
    from d(1) k have e: "key d = map_option (\<lambda>n. show_int n @ '' MiB/s'') (pv d)" by simp
    with d(2) have "pv d \<noteq> None" by (simp add: dict_get_display)
    then have "peak_value (key d) = pv d" unfolding e by (rule peak_value_map_display)
    with d(3) \<open>pv d \<noteq> None\<close> show False by simp
  qed
  show ?thesis
    by (simp only: avg_peak_eq n if_False q m mf length_map)
qed

lemma show_int_1000: "show_int 1000 = ''1000''"
  by (simp add: show_int_def show_nat.simps digit_char_def)

lemma show_int_3000: "show_int 3000 = ''3000''"
  by (simp add: show_int_def show_nat.simps digit_char_def)

section \<open>Post-test scoping\<close>

text \<open>
  C1. When the text is \<open>pre\<close>, the marker \<open>after test\<close>, and a rest \<open>post\<close> without the
  marker (so \<open>post\<close> is what follows the last occurrence), the four post-test fields
  \<open>temp_after\<close>, \<open>temp_sensors_after\<close>, \<open>data_read\<close> and \<open>data_written\<close> are the results of
  their patterns on \<open>post\<close> alone, whatever \<open>pre\<close> is. When the marker is absent the four
  fields keep their defaults. For a text with one temperature line before the marker
  and one behind its last occurrence, each the first of its part, \<open>temp_before\<close> is the
  number of the first line and \<open>temp_after\<close> the number of the second.
\<close>

theorem post_test_scoping:
  "(\<not> contains ''after test'' post \<longrightarrow>
      temp_after (parse_log name (Some (pre @ ''after test'' @ post))) =
        (case re_search rx_temperature post of Some m \<Rightarrow> group 1 m | None \<Rightarrow> ''Unknown'')
      \<and> temp_sensors_after (parse_log name (Some (pre @ ''after test'' @ post))) =
        map (\<lambda>m. (''Sensor '' @ group 1 m, group 2 m)) (re_findall rx_temp_sensor post)
      \<and> data_read (parse_log name (Some (pre @ ''after test'' @ post))) =
        (case re_search rx_data_read post of
           Some m \<Rightarrow> py_strip (group 2 m) | None \<Rightarrow> ''Unknown'')
      \<and> data_written (parse_log name (Some (pre @ ''after test'' @ post))) =
        (case re_search rx_data_written post of
           Some m \<Rightarrow> py_strip (group 2 m) | None \<Rightarrow> ''Unknown''))
   \<and> (\<not> contains ''after test'' content \<longrightarrow>
      temp_after (parse_log name (Some content)) = ''Unknown''
      \<and> temp_sensors_after (parse_log name (Some content)) = []
      \<and> data_read (parse_log name (Some content)) = ''Unknown''
      \<and> data_written (parse_log name (Some content)) = ''Unknown'')
   \<and> (wa \<noteq> [] \<and> (\<forall>x\<in>set wa. is_space x) \<and> da \<noteq> [] \<and> (\<forall>x\<in>set da. is_digit x)
      \<and> wb \<noteq> [] \<and> (\<forall>x\<in>set wb. is_space x)
      \<and> wc \<noteq> [] \<and> (\<forall>x\<in>set wc. is_space x) \<and> db \<noteq> [] \<and> (\<forall>x\<in>set db. is_digit x)
      \<and> wd \<noteq> [] \<and> (\<forall>x\<in>set wd. is_space x)
      \<and> \<not> contains ''Temperature:'' a
      \<and> \<not> contains ''Temperature:'' c
      \<and> \<not> contains ''after test'' (c @ ''Temperature:'' @ wc @ db @ wd @ ''Celsius'' @ e) \<longrightarrow>
      temp_before (parse_log name (Some
          (a @ ''Temperature:'' @ wa @ da @ wb @ ''Celsius'' @ b @ ''after test'' @
           c @ ''Temperature:'' @ wc @ db @ wd @ ''Celsius'' @ e))) = da
      \<and> temp_after (parse_log name (Some
          (a @ ''Temperature:'' @ wa @ da @ wb @ ''Celsius'' @ b @ ''after test'' @
           c @ ''Temperature:'' @ wc @ db @ wd @ ''Celsius'' @ e))) = db)"
proof (intro conjI impI)
  assume p: "\<not> contains ''after test'' post"
  note s = after_section_present[OF p, of pre]
  show "temp_after (parse_log name (Some (pre @ ''after test'' @ post))) =
        (case re_search rx_temperature post of Some m \<Rightarrow> group 1 m | None \<Rightarrow> ''Unknown'')"
    by (simp only: after_fields_parse_log s if_True)
  show "temp_sensors_after (parse_log name (Some (pre @ ''after test'' @ post))) =
        map (\<lambda>m. (''Sensor '' @ group 1 m, group 2 m)) (re_findall rx_temp_sensor post)"
    by (simp only: after_fields_parse_log s if_True)
  show "data_read (parse_log name (Some (pre @ ''after test'' @ post))) =
        (case re_search rx_data_read post of
           Some m \<Rightarrow> py_strip (group 2 m) | None \<Rightarrow> ''Unknown'')"
    by (simp only: after_fields_parse_log s if_True)
  show "data_written (parse_log name (Some (pre @ ''after test'' @ post))) =
        (case re_search rx_data_written post of
           Some m \<Rightarrow> py_strip (group 2 m) | None \<Rightarrow> ''Unknown'')"
    by (simp only: after_fields_parse_log s if_True)
next
  assume "\<not> contains ''after test'' content"
  then have s: "split_str ''after test'' content = [content]" by (rule after_section_absent)
  show "temp_after (parse_log name (Some content)) = ''Unknown''"
    by (simp add: after_fields_parse_log s)
  show "temp_sensors_after (parse_log name (Some content)) = []"
    by (simp add: after_fields_parse_log s)
  show "data_read (parse_log name (Some content)) = ''Unknown''"
    by (simp add: after_fields_parse_log s)
  show "data_written (parse_log name (Some content)) = ''Unknown''"
    by (simp add: after_fields_parse_log s)
next
  assume h: "wa \<noteq> [] \<and> (\<forall>x\<in>set wa. is_space x) \<and> da \<noteq> [] \<and> (\<forall>x\<in>set da. is_digit x)
      \<and> wb \<noteq> [] \<and> (\<forall>x\<in>set wb. is_space x)
      \<and> wc \<noteq> [] \<and> (\<forall>x\<in>set wc. is_space x) \<and> db \<noteq> [] \<and> (\<forall>x\<in>set db. is_digit x)
      \<and> wd \<noteq> [] \<and> (\<forall>x\<in>set wd. is_space x)
      \<and> \<not> contains ''Temperature:'' a
      \<and> \<not> contains ''Temperature:'' c
      \<and> \<not> contains ''after test'' (c @ ''Temperature:'' @ wc @ db @ wd @ ''Celsius'' @ e)"
  define post where "post = c @ ''Temperature:'' @ wc @ db @ wd @ ''Celsius'' @ e"
  define pre where "pre = a @ ''Temperature:'' @ wa @ da @ wb @ ''Celsius'' @ b"
  define rest where "rest = b @ ''after test'' @ post"
  let ?content = "a @ ''Temperature:'' @ wa @ da @ wb @ ''Celsius'' @ b @ ''after test'' @
           c @ ''Temperature:'' @ wc @ db @ wd @ ''Celsius'' @ e"
  have ca: "?content = a @ ''Temperature:'' @ wa @ da @ wb @ ''Celsius'' @ rest"
    by (simp add: rest_def post_def)
  have cb: "?content = pre @ ''after test'' @ post"
    by (simp add: pre_def post_def)
  have p: "\<not> contains ''after test'' post" using h by (simp add: post_def)
  have b: "re_search rx_temperature ?content = Some [da]"
    unfolding ca using h by (intro re_search_temperature_line) simp_all
  have af: "re_search rx_temperature post = Some [db]"
    unfolding post_def using h by (intro re_search_temperature_line) simp_all
  show "temp_before (parse_log name (Some ?content)) = da"
    by (simp only: temp_before_parse_log b option.case group_1_single)
  show "temp_after (parse_log name (Some ?content)) = db"
    unfolding cb
    by (simp only: after_fields_parse_log after_section_present[OF p] if_True af option.case
        group_1_single)
qed

theorem post_test_scoping_witness:
  "temp_before (parse_log ''nvme0n1''
     (Some ''Temperature: 40 Celsius\<newline>=== after test ===\<newline>Temperature: 55 Celsius\<newline>'')) = ''40''
   \<and> temp_after (parse_log ''nvme0n1''
     (Some ''Temperature: 40 Celsius\<newline>=== after test ===\<newline>Temperature: 55 Celsius\<newline>'')) = ''55''
   \<and> temp_after (parse_log ''nvme0n1'' (Some ''Temperature: 40 Celsius\<newline>'')) = ''Unknown''"
  using post_test_scoping [where name = "''nvme0n1''" and content = "''Temperature: 40 Celsius\<newline>''"
      and a = "''''" and wa = "'' ''" and da = "''40''" and wb = "'' ''"
      and b = "''\<newline>=== ''" and c = "'' ===\<newline>''" and wc = "'' ''" and db = "''55''"
      and wd = "'' ''" and e = "''\<newline>''" and pre = "''''" and post = "''''"]
  by (simp add: is_space_def is_digit_def)

section \<open>Extraction totality\<close>

text \<open>
  C5. \<open>parse\<close> returns a record for every outcome of the read: when the file cannot be
  read, the handler returns the record as it was, which for a new parser is the record of
  defaults. A field whose pattern finds no match in the text (for a post-test field:
  no marker, or no match behind it) has its default, the fields that no statement
  assigns have theirs, and the empty text gives the record of defaults.
\<close>

theorem extraction_totality:
  "parse None data = data
   \<and> parse_log name None = init_data name
   \<and> parse_log name (Some []) = init_data name
   \<and> (re_search rx_model c = None \<longrightarrow> model (parse_log name (Some c)) = ''Unknown'')
   \<and> (re_search rx_serial c = None \<longrightarrow> serial (parse_log name (Some c)) = ''Unknown'')
   \<and> (re_search rx_firmware c = None \<longrightarrow> firmware (parse_log name (Some c)) = ''Unknown'')
   \<and> (re_search rx_capacity c = None \<longrightarrow> capacity (parse_log name (Some c)) = ''Unknown'')
   \<and> (re_search rx_nvme_version c = None \<longrightarrow> nvme_version (parse_log name (Some c)) = ''Unknown'')
   \<and> (re_search rx_health c = None \<longrightarrow> health_status (parse_log name (Some c)) = ''Unknown'')
   \<and> (re_search rx_temperature c = None \<longrightarrow> temp_before (parse_log name (Some c)) = ''Unknown'')
   \<and> (re_search rx_percentage c = None \<longrightarrow> percentage_used (parse_log name (Some c)) = ''Unknown'')
   \<and> (re_search rx_read_perf c = None \<longrightarrow> read_bw (parse_log name (Some c)) = ''Unknown'')
   \<and> (re_search rx_read_iops c = None \<longrightarrow> read_iops (parse_log name (Some c)) = ''Unknown'')
   \<and> (re_search rx_write_perf c = None \<longrightarrow> write_bw (parse_log name (Some c)) = ''Unknown'')
   \<and> (re_search rx_write_iops c = None \<longrightarrow> write_iops (parse_log name (Some c)) = ''Unknown'')
   \<and> (re_search rx_checkpoint c = None \<longrightarrow> checkpoint_write_bw (parse_log name (Some c)) = ''Unknown'')
   \<and> (re_search rx_checkpoint_iops c = None \<longrightarrow> checkpoint_write_iops (parse_log name (Some c)) = ''Unknown'')
   \<and> (re_search rx_error_entries c = None \<longrightarrow> errors (parse_log name (Some c)) = 0)
   \<and> (\<not> 1 < length (split_str ''after test'' c)
      \<or> re_search rx_temperature (last (split_str ''after test'' c)) = None \<longrightarrow>
      temp_after (parse_log name (Some c)) = ''Unknown'')
   \<and> (\<not> 1 < length (split_str ''after test'' c)
      \<or> re_search rx_data_read (last (split_str ''after test'' c)) = None \<longrightarrow>
      data_read (parse_log name (Some c)) = ''Unknown'')
   \<and> (\<not> 1 < length (split_str ''after test'' c)
      \<or> re_search rx_data_written (last (split_str ''after test'' c)) = None \<longrightarrow>
      data_written (parse_log name (Some c)) = ''Unknown'')
   \<and> (\<not> 1 < length (split_str ''after test'' c)
      \<or> re_findall rx_temp_sensor (last (split_str ''after test'' c)) = [] \<longrightarrow>
      temp_sensors_after (parse_log name (Some c)) = [])
   \<and> drive_name (parse_log name (Some c)) = name
   \<and> pci_gen (parse_log name (Some c)) = ''Unknown''
   \<and> test_duration (parse_log name (Some c)) = ''10 minutes''
   \<and> workload (parse_log name (Some c)) = ''AI Data Load & Model Checkpoint''
   \<and> peak_read_bw (parse_log name (Some c)) = None
   \<and> peak_write_bw (parse_log name (Some c)) = None"
  by (simp add: parse_log_empty, simp add: parse_def parse_log_def, simp add: parse_log_Some parse_content_def Let_def parse_fields_eq init_data_def
      cong: option.case_cong if_cong)

theorem extraction_totality_witness:
  "model (parse_log ''nvme0n1'' (Some ''=== START OF INFORMATION SECTION ==='')) = ''Unknown''
   \<and> serial (parse_log ''nvme0n1'' (Some ''=== START OF INFORMATION SECTION ==='')) = ''Unknown''
   \<and> firmware (parse_log ''nvme0n1'' (Some ''=== START OF INFORMATION SECTION ==='')) = ''Unknown''
   \<and> capacity (parse_log ''nvme0n1'' (Some ''=== START OF INFORMATION SECTION ==='')) = ''Unknown''
   \<and> nvme_version (parse_log ''nvme0n1'' (Some ''=== START OF INFORMATION SECTION ==='')) = ''Unknown''
   \<and> health_status (parse_log ''nvme0n1'' (Some ''=== START OF INFORMATION SECTION ==='')) = ''Unknown''
   \<and> temp_before (parse_log ''nvme0n1'' (Some ''=== START OF INFORMATION SECTION ==='')) = ''Unknown''
   \<and> percentage_used (parse_log ''nvme0n1'' (Some ''=== START OF INFORMATION SECTION ==='')) = ''Unknown''
   \<and> read_bw (parse_log ''nvme0n1'' (Some ''=== START OF INFORMATION SECTION ==='')) = ''Unknown''
   \<and> read_iops (parse_log ''nvme0n1'' (Some ''=== START OF INFORMATION SECTION ==='')) = ''Unknown''
   \<and> write_bw (parse_log ''nvme0n1'' (Some ''=== START OF INFORMATION SECTION ==='')) = ''Unknown''
   \<and> write_iops (parse_log ''nvme0n1'' (Some ''=== START OF INFORMATION SECTION ==='')) = ''Unknown''
   \<and> checkpoint_write_bw (parse_log ''nvme0n1'' (Some ''=== START OF INFORMATION SECTION ==='')) = ''Unknown''
   \<and> checkpoint_write_iops (parse_log ''nvme0n1'' (Some ''=== START OF INFORMATION SECTION ==='')) = ''Unknown''
   \<and> temp_after (parse_log ''nvme0n1'' (Some ''=== START OF INFORMATION SECTION ==='')) = ''Unknown''
   \<and> data_read (parse_log ''nvme0n1'' (Some ''=== START OF INFORMATION SECTION ==='')) = ''Unknown''
   \<and> data_written (parse_log ''nvme0n1'' (Some ''=== START OF INFORMATION SECTION ==='')) = ''Unknown''
   \<and> errors (parse_log ''nvme0n1'' (Some ''=== START OF INFORMATION SECTION ==='')) = 0
   \<and> temp_sensors_after (parse_log ''nvme0n1'' (Some ''=== START OF INFORMATION SECTION ==='')) = []
   \<and> drive_name (parse_log ''nvme0n1'' (Some ''=== START OF INFORMATION SECTION ==='')) = ''nvme0n1''"
  using extraction_totality [where name = "''nvme0n1''" and c = "''=== START OF INFORMATION SECTION ===''"]
  by (simp add: rx_defs split_str.simps)

section \<open>Pre-test temperature\<close>

text \<open>
  C9. \<open>temp_before\<close> is the number of the first match of the temperature pattern in the
  whole text: of the match at the least position that has one. So when the only
  temperature line of the text stands behind the marker, \<open>temp_before\<close> and \<open>temp_after\<close>
  are both its number; and when the text has a temperature line and no marker,
  \<open>temp_before\<close> is its number and \<open>temp_after\<close> stays \<open>Unknown\<close>.
\<close>

theorem temp_before_unscoped:
  "(i \<le> length content
      \<and> (\<forall>j<i. re_match rx_temperature [] None (drop j content) = None)
      \<and> re_match rx_temperature [] None (drop i content) = Some (gs, rest) \<longrightarrow>
      temp_before (parse_log name (Some content)) = group 1 gs)
   \<and> (wa \<noteq> [] \<and> (\<forall>x\<in>set wa. is_space x) \<and> ds \<noteq> [] \<and> (\<forall>x\<in>set ds. is_digit x)
      \<and> wb \<noteq> [] \<and> (\<forall>x\<in>set wb. is_space x)
      \<and> \<not> contains ''Temperature:'' (a @ ''after test'' @ b)
      \<and> \<not> contains ''after test'' (b @ ''Temperature:'' @ wa @ ds @ wb @ ''Celsius'' @ e) \<longrightarrow>
      temp_before (parse_log name (Some
          (a @ ''after test'' @ b @ ''Temperature:'' @ wa @ ds @ wb @ ''Celsius'' @ e))) = ds
      \<and> temp_after (parse_log name (Some
          (a @ ''after test'' @ b @ ''Temperature:'' @ wa @ ds @ wb @ ''Celsius'' @ e))) = ds)
   \<and> (wa \<noteq> [] \<and> (\<forall>x\<in>set wa. is_space x) \<and> ds \<noteq> [] \<and> (\<forall>x\<in>set ds. is_digit x)
      \<and> wb \<noteq> [] \<and> (\<forall>x\<in>set wb. is_space x)
      \<and> \<not> contains ''Temperature:'' a
      \<and> \<not> contains ''after test'' (a @ ''Temperature:'' @ wa @ ds @ wb @ ''Celsius'' @ e) \<longrightarrow>
      temp_before (parse_log name (Some (a @ ''Temperature:'' @ wa @ ds @ wb @ ''Celsius'' @ e))) = ds
      \<and> temp_after (parse_log name (Some (a @ ''Temperature:'' @ wa @ ds @ wb @ ''Celsius'' @ e)))
          = ''Unknown'')"
proof (intro conjI impI)
  assume h: "i \<le> length content
      \<and> (\<forall>j<i. re_match rx_temperature [] None (drop j content) = None)
      \<and> re_match rx_temperature [] None (drop i content) = Some (gs, rest)"
  then have "re_search rx_temperature content = Some gs"
    by (intro re_search_first[of i content rx_temperature gs rest]) simp_all
  then show "temp_before (parse_log name (Some content)) = group 1 gs"
    by (simp add: temp_before_parse_log)
next
  assume h: "wa \<noteq> [] \<and> (\<forall>x\<in>set wa. is_space x) \<and> ds \<noteq> [] \<and> (\<forall>x\<in>set ds. is_digit x)
      \<and> wb \<noteq> [] \<and> (\<forall>x\<in>set wb. is_space x)
      \<and> \<not> contains ''Temperature:'' (a @ ''after test'' @ b)
      \<and> \<not> contains ''after test'' (b @ ''Temperature:'' @ wa @ ds @ wb @ ''Celsius'' @ e)"
  define post where "post = b @ ''Temperature:'' @ wa @ ds @ wb @ ''Celsius'' @ e"
  define pre where "pre = a @ ''after test'' @ b"
  let ?content = "a @ ''after test'' @ b @ ''Temperature:'' @ wa @ ds @ wb @ ''Celsius'' @ e"
  have ca: "?content = pre @ ''Temperature:'' @ wa @ ds @ wb @ ''Celsius'' @ e"
    by (simp add: pre_def)
  have cb: "?content = a @ ''after test'' @ post"
    by (simp add: post_def)
  have p: "\<not> contains ''after test'' post" using h by (simp add: post_def)
  have np: "\<not> contains ''Temperature:'' pre" using h by (simp add: pre_def)
  have nb: "\<not> contains ''Temperature:'' b"
  proof
    assume "contains ''Temperature:'' b"
    then have "sublist ''Temperature:'' b" by (simp only: contains_iff_sublist)
    then have "sublist ''Temperature:'' ((a @ ''after test'') @ b)"
      by (simp only: sublist_append) simp
    then have "contains ''Temperature:'' (a @ ''after test'' @ b)"
      by (simp only: contains_iff_sublist append_assoc)
    with h show False by simp
  qed
  have s: "re_search rx_temperature ?content = Some [ds]"
    unfolding ca using h np by (intro re_search_temperature_line) simp_all
  have af: "re_search rx_temperature post = Some [ds]"
    unfolding post_def using h nb by (intro re_search_temperature_line) simp_all
  show "temp_before (parse_log name (Some ?content)) = ds"
    by (simp only: temp_before_parse_log s option.case group_1_single)
  show "temp_after (parse_log name (Some ?content)) = ds"
    unfolding cb
    by (simp only: after_fields_parse_log after_section_present[OF p] if_True af option.case
        group_1_single)
next
  assume h: "wa \<noteq> [] \<and> (\<forall>x\<in>set wa. is_space x) \<and> ds \<noteq> [] \<and> (\<forall>x\<in>set ds. is_digit x)
      \<and> wb \<noteq> [] \<and> (\<forall>x\<in>set wb. is_space x)
      \<and> \<not> contains ''Temperature:'' a
      \<and> \<not> contains ''after test'' (a @ ''Temperature:'' @ wa @ ds @ wb @ ''Celsius'' @ e)"
  let ?content = "a @ ''Temperature:'' @ wa @ ds @ wb @ ''Celsius'' @ e"
  have s: "re_search rx_temperature ?content = Some [ds]"
    using h by (intro re_search_temperature_line) simp_all
  have n: "split_str ''after test'' ?content = [?content]"
    using h by (intro after_section_absent) simp
  show "temp_before (parse_log name (Some ?content)) = ds"
    by (simp only: temp_before_parse_log s option.case group_1_single)
  show "temp_after (parse_log name (Some ?content)) = ''Unknown''"
    unfolding after_fields_parse_log n by simp
qed

theorem temp_before_unscoped_witness:
  "temp_before (parse_log ''nvme0n1''
     (Some ''=== after test ===\<newline>Temperature: 55 Celsius\<newline>'')) = ''55''
   \<and> temp_after (parse_log ''nvme0n1''
     (Some ''=== after test ===\<newline>Temperature: 55 Celsius\<newline>'')) = ''55''
   \<and> temp_before (parse_log ''nvme0n1'' (Some ''Temperature: 40 Celsius\<newline>'')) = ''40''
   \<and> temp_after (parse_log ''nvme0n1'' (Some ''Temperature: 40 Celsius\<newline>'')) = ''Unknown''"
  using temp_before_unscoped [where name = "''nvme0n1''" and a = "''=== ''" and b = "'' ===\<newline>''"
      and wa = "'' ''" and ds = "''55''" and wb = "'' ''" and e = "''\<newline>''"
      and i = 0 and content = "''''" and gs = "[]" and rest = "''''"]
    temp_before_unscoped [where name = "''nvme0n1''" and a = "''''"
      and wa = "'' ''" and ds = "''40''" and wb = "'' ''" and e = "''\<newline>''"
      and i = 0 and content = "''''" and gs = "[]" and rest = "''''"]
  by (simp add: is_space_def is_digit_def)

section \<open>Peak bandwidth merge\<close>

text \<open>
  C3. The artifact \<open>{"jobs":[{"read":{"bw": 2048000}}]}\<close> gives 2000, and the merged
  peak-read field is \<open>2000 MiB/s\<close>. Only the first element of \<open>jobs\<close> is consulted. A
  positive integer bandwidth below \<open>2 ^ 53\<close>, where the float division is exact, gives
  its quotient by 1024, cut off. When \<open>read\<close> and \<open>write\<close> are each absent, without \<open>bw\<close>,
  or with \<open>bw\<close> 0, the result is \<open>None\<close>; a failed read or decoding gives \<open>None\<close> as well.
  A result \<open>None\<close> or 0 leaves the peak field of the parsed record unset; an unset field
  is shown as \<open>N/A\<close> and its device is not counted in the average.
\<close>

theorem peak_bandwidth_merge:
  "parse_fio_json (Some (JObj [(''jobs'', JArr [JObj [(''read'', JObj [(''bw'', JInt 2048000)])]])]))
     = Some 2000
   \<and> peak_read_bw (merge_peak data
        (Some (Some (JObj [(''jobs'', JArr [JObj [(''read'', JObj [(''bw'', JInt 2048000)])]])])))
        write_json) = Some ''2000 MiB/s''
   \<and> (map_of kvs ''jobs'' = Some (JArr (job # rest)) \<longrightarrow>
        parse_fio_json (Some (JObj kvs)) = parse_fio_json (Some (JObj [(''jobs'', JArr [job])])))
   \<and> (map_of kvs ''jobs'' = Some (JArr (JObj jkv # rest))
        \<and> map_of jkv ''read'' = Some (JObj r) \<and> map_of r ''bw'' = Some (JInt n)
        \<and> 0 < n \<and> n < 2 ^ 53 \<longrightarrow>
        parse_fio_json (Some (JObj kvs)) = Some (n div 1024))
   \<and> (map_of kvs ''jobs'' = Some (JArr (JObj jkv # rest))
        \<and> (\<forall>key\<in>{''read'', ''write''}.
              map_of jkv key = None
              \<or> (\<exists>r. map_of jkv key = Some (JObj r)
                   \<and> (map_of r ''bw'' = None \<or> map_of r ''bw'' = Some (JInt 0)))) \<longrightarrow>
        parse_fio_json (Some (JObj kvs)) = None)
   \<and> parse_fio_json None = None
   \<and> (parse_fio_json loaded = None \<or> parse_fio_json loaded = Some 0 \<longrightarrow>
        peak_read_bw (merge_peak (parse_log name logf) (Some loaded) write_json) = None
        \<and> peak_write_bw (merge_peak (parse_log name logf) read_json (Some loaded)) = None)
   \<and> (key d = None \<longrightarrow>
        dict_get (key d) ''N/A'' = ''N/A'' \<and> avg_peak key (d # ds) = avg_peak key ds)"
proof (intro conjI impI)
  let ?ex = "JObj [(''jobs'', JArr [JObj [(''read'', JObj [(''bw'', JInt 2048000)])]])]"
  have "parse_fio_json (Some ?ex) = int_truediv_1024 2048000"
    by (rule parse_fio_json_read[where jkv = "[(''read'', JObj [(''bw'', JInt 2048000)])]"
          and r = "[(''bw'', JInt 2048000)]" and rest = "[]"]) simp_all
  also have "\<dots> = Some (2048000 div 1024)"
    by (rule int_truediv_1024_exact) simp_all
  finally show ex: "parse_fio_json (Some ?ex) = Some 2000" by simp
  show "peak_read_bw (merge_peak data (Some (Some ?ex)) write_json) = Some ''2000 MiB/s''"
    by (simp only: merge_peak_read ex) (simp add: show_int_2000)
next
  assume "map_of kvs ''jobs'' = Some (JArr (job # rest))"
  then show "parse_fio_json (Some (JObj kvs)) = parse_fio_json (Some (JObj [(''jobs'', JArr [job])]))"
    by (rule parse_fio_json_first_job)
next
  assume h: "map_of kvs ''jobs'' = Some (JArr (JObj jkv # rest))
        \<and> map_of jkv ''read'' = Some (JObj r) \<and> map_of r ''bw'' = Some (JInt n)
        \<and> 0 < n \<and> n < 2 ^ 53"
  then have "parse_fio_json (Some (JObj kvs)) = int_truediv_1024 n"
    by (intro parse_fio_json_read[of kvs jkv rest r n]) simp_all
  also have "\<dots> = Some (n div 1024)" using h by (intro int_truediv_1024_exact) simp_all
  finally show "parse_fio_json (Some (JObj kvs)) = Some (n div 1024)" .
next
  assume h: "map_of kvs ''jobs'' = Some (JArr (JObj jkv # rest))
        \<and> (\<forall>key\<in>{''read'', ''write''}.
              map_of jkv key = None
              \<or> (\<exists>r. map_of jkv key = Some (JObj r)
                   \<and> (map_of r ''bw'' = None \<or> map_of r ''bw'' = Some (JInt 0))))"
  have "has_bw ''read'' (JObj jkv) = Some False"
    using h by (intro has_bw_zero) auto
  moreover have "has_bw ''write'' (JObj jkv) = Some False"
    using h by (intro has_bw_zero) auto
  ultimately show "parse_fio_json (Some (JObj kvs)) = None"
    using h by (intro parse_fio_json_neither[of kvs jkv rest]) simp_all
next
  show "parse_fio_json None = None" by (simp add: parse_fio_json_def)
next
  assume h: "parse_fio_json loaded = None \<or> parse_fio_json loaded = Some 0"
  then show "peak_read_bw (merge_peak (parse_log name logf) (Some loaded) write_json) = None"
    by (auto simp: merge_peak_read parse_log_peak_unset)
  from h show "peak_write_bw (merge_peak (parse_log name logf) read_json (Some loaded)) = None"
    by (auto simp: merge_peak_write parse_log_peak_unset)
next
  assume "key d = None"
  then show "dict_get (key d) ''N/A'' = ''N/A''" by (simp add: dict_get_def)
next
  assume "key d = None"
  then show "avg_peak key (d # ds) = avg_peak key ds" by (rule avg_peak_skip)
qed

theorem peak_bandwidth_merge_witness:
  "parse_fio_json (Some (JObj [(''jobs'', JArr [JObj [(''read'', JObj [(''bw'', JInt 4096000)])],
                                                 JObj [(''read'', JObj [(''bw'', JInt 1)])]])]))
     = Some 4000
   \<and> parse_fio_json (Some (JObj [(''jobs'', JArr [JObj [(''read'', JObj [(''bw'', JInt 0)])]])])) = None
   \<and> peak_read_bw (merge_peak (parse_log ''nvme0n1'' None) (Some None) None) = None
   \<and> avg_peak peak_read_bw [init_data ''nvme0n1''] = avg_peak peak_read_bw []"
proof (intro conjI)
  note a = peak_bandwidth_merge [where
      kvs = "[(''jobs'', JArr [JObj [(''read'', JObj [(''bw'', JInt 4096000)])],
                               JObj [(''read'', JObj [(''bw'', JInt 1)])]])]"
      and jkv = "[(''read'', JObj [(''bw'', JInt 4096000)])]" and r = "[(''bw'', JInt 4096000)]"
      and n = 4096000 and rest = "[JObj [(''read'', JObj [(''bw'', JInt 1)])]]"]
  then show "parse_fio_json (Some (JObj [(''jobs'', JArr [JObj [(''read'', JObj [(''bw'', JInt 4096000)])],
                                                 JObj [(''read'', JObj [(''bw'', JInt 1)])]])]))
     = Some 4000"
    by simp
  note b = peak_bandwidth_merge [where
      kvs = "[(''jobs'', JArr [JObj [(''read'', JObj [(''bw'', JInt 0)])]])]"
      and jkv = "[(''read'', JObj [(''bw'', JInt 0)])]" and rest = "[]"]
  then show "parse_fio_json (Some (JObj [(''jobs'', JArr [JObj [(''read'', JObj [(''bw'', JInt 0)])]])])) = None"
    by simp
  note c = peak_bandwidth_merge [where loaded = None and name = "''nvme0n1''" and logf = None
      and write_json = None]
  then show "peak_read_bw (merge_peak (parse_log ''nvme0n1'' None) (Some None) None) = None"
    by simp
  note d = peak_bandwidth_merge [where key = peak_read_bw and d = "init_data ''nvme0n1''"
      and ds = "[]"]
  then show "avg_peak peak_read_bw [init_data ''nvme0n1''] = avg_peak peak_read_bw []"
    by (simp add: init_data_def)
qed

section \<open>Read before write\<close>

text \<open>
  C10, as amended. \<open>parse_fio_json\<close> tests \<open>read\<close> before \<open>write\<close>, whatever the direction of
  the artifact. When the first job has an integer \<open>read.bw\<close> above 0, the result is
  \<open>int(read.bw / 1024)\<close> whatever \<open>write\<close> holds: the quotient by 1024, cut off, below
  \<open>2 ^ 53\<close>; and a write artifact with a read bandwidth of at least 1024 is merged with
  that value as the peak write. When \<open>read\<close> is absent, has no \<open>bw\<close>, or has an integer
  \<open>bw\<close> that is not above 0, a positive integer \<open>write.bw\<close> decides the result. And the
  entry \<open>write\<close> has an influence on the result only when \<open>read\<close> is absent, has no \<open>bw\<close>,
  or has a \<open>bw\<close> for which \<open>bw > 0\<close> is false: two first jobs with the same \<open>read\<close> and
  different results have such a \<open>read\<close>.
\<close>

theorem read_before_write:
  "(map_of kvs ''jobs'' = Some (JArr (JObj jkv # rest))
      \<and> map_of jkv ''read'' = Some (JObj r) \<and> map_of r ''bw'' = Some (JInt n) \<and> 0 < n \<longrightarrow>
      parse_fio_json (Some (JObj kvs)) = int_truediv_1024 n
      \<and> (n < 2 ^ 53 \<longrightarrow> parse_fio_json (Some (JObj kvs)) = Some (n div 1024))
      \<and> (1024 \<le> n \<and> n < 2 ^ 53 \<longrightarrow>
           peak_write_bw (merge_peak data read_json (Some (Some (JObj kvs))))
             = Some (show_int (n div 1024) @ '' MiB/s'')))
   \<and> (map_of kvs ''jobs'' = Some (JArr (JObj jkv # rest))
      \<and> (map_of jkv ''read'' = None
           \<or> (\<exists>r. map_of jkv ''read'' = Some (JObj r)
                \<and> (map_of r ''bw'' = None \<or> (\<exists>k. map_of r ''bw'' = Some (JInt k) \<and> k \<le> 0))))
      \<and> map_of jkv ''write'' = Some (JObj w) \<and> map_of w ''bw'' = Some (JInt m) \<and> 0 < m \<longrightarrow>
      parse_fio_json (Some (JObj kvs)) = int_truediv_1024 m)
   \<and> (map_of kvs ''jobs'' = Some (JArr (JObj jkv # rest))
      \<and> map_of kvs' ''jobs'' = Some (JArr (JObj jkv' # rest'))
      \<and> map_of jkv ''read'' = map_of jkv' ''read''
      \<and> parse_fio_json (Some (JObj kvs)) \<noteq> parse_fio_json (Some (JObj kvs')) \<longrightarrow>
      map_of jkv ''read'' = None
      \<or> (\<exists>sub. map_of jkv ''read'' = Some sub
            \<and> (py_in ''bw'' sub = Some False
                 \<or> (\<exists>bw. py_getitem sub ''bw'' = Some bw \<and> py_gt0 bw = Some False))))"
proof (intro conjI impI)
  assume h: "map_of kvs ''jobs'' = Some (JArr (JObj jkv # rest))
      \<and> map_of jkv ''read'' = Some (JObj r) \<and> map_of r ''bw'' = Some (JInt n) \<and> 0 < n"
  then show a: "parse_fio_json (Some (JObj kvs)) = int_truediv_1024 n"
    by (intro parse_fio_json_read[of kvs jkv rest r n]) simp_all
  {
    assume "n < 2 ^ 53"
    with h have "int_truediv_1024 n = Some (n div 1024)"
      by (intro int_truediv_1024_exact) simp_all
    with a show "parse_fio_json (Some (JObj kvs)) = Some (n div 1024)" by simp
  }
  {
    assume b: "1024 \<le> n \<and> n < 2 ^ 53"
    with h have "int_truediv_1024 n = Some (n div 1024)"
      by (intro int_truediv_1024_exact) simp_all
    with a have v: "parse_fio_json (Some (JObj kvs)) = Some (n div 1024)" by simp
    have "0 < n div 1024" using b by (simp add: pos_imp_zdiv_pos_iff)
    then have "n div 1024 \<noteq> 0" by simp
    then show "peak_write_bw (merge_peak data read_json (Some (Some (JObj kvs))))
             = Some (show_int (n div 1024) @ '' MiB/s'')"
      by (simp add: merge_peak_write v)
  }
next
  assume h: "map_of kvs ''jobs'' = Some (JArr (JObj jkv # rest))
      \<and> (map_of jkv ''read'' = None
           \<or> (\<exists>r. map_of jkv ''read'' = Some (JObj r)
                \<and> (map_of r ''bw'' = None \<or> (\<exists>k. map_of r ''bw'' = Some (JInt k) \<and> k \<le> 0))))
      \<and> map_of jkv ''write'' = Some (JObj w) \<and> map_of w ''bw'' = Some (JInt m) \<and> 0 < m"
  then have "has_bw ''read'' (JObj jkv) = Some False"
    by (intro has_bw_zero) simp
  with h show "parse_fio_json (Some (JObj kvs)) = int_truediv_1024 m"
    by (intro parse_fio_json_write[of kvs jkv rest w m]) simp_all
next
  assume h: "map_of kvs ''jobs'' = Some (JArr (JObj jkv # rest))
      \<and> map_of kvs' ''jobs'' = Some (JArr (JObj jkv' # rest'))
      \<and> map_of jkv ''read'' = map_of jkv' ''read''
      \<and> parse_fio_json (Some (JObj kvs)) \<noteq> parse_fio_json (Some (JObj kvs'))"
  have "has_bw ''read'' (JObj jkv) = Some False"
  proof (rule ccontr)
    assume n: "has_bw ''read'' (JObj jkv) \<noteq> Some False"
    have e1: "has_bw ''read'' (JObj jkv') = has_bw ''read'' (JObj jkv)"
      using h by (intro has_bw_cong) simp
    have e2: "return_bw ''read'' (JObj jkv') = return_bw ''read'' (JObj jkv)"
      using h by (intro return_bw_cong) simp
    have "parse_fio_json (Some (JObj kvs)) =
           (case has_bw ''read'' (JObj jkv) of None \<Rightarrow> None
            | Some b \<Rightarrow> return_bw ''read'' (JObj jkv))"
      using h n by (intro parse_fio_json_read_decides[of kvs jkv rest]) simp_all
    moreover have "parse_fio_json (Some (JObj kvs')) =
           (case has_bw ''read'' (JObj jkv') of None \<Rightarrow> None
            | Some b \<Rightarrow> return_bw ''read'' (JObj jkv'))"
      using h n e1 by (intro parse_fio_json_read_decides[of kvs' jkv' rest']) simp_all
    ultimately have "parse_fio_json (Some (JObj kvs)) = parse_fio_json (Some (JObj kvs'))"
      by (simp only: e1 e2)
    with h show False by simp
  qed
  then show "map_of jkv ''read'' = None
      \<or> (\<exists>sub. map_of jkv ''read'' = Some sub
            \<and> (py_in ''bw'' sub = Some False
                 \<or> (\<exists>bw. py_getitem sub ''bw'' = Some bw \<and> py_gt0 bw = Some False)))"
    by (rule has_bw_False_cases)
qed

theorem read_before_write_witness:
  "parse_fio_json (Some (JObj [(''jobs'', JArr [JObj [(''read'', JObj [(''bw'', JInt 4096000)]),
                                                      (''write'', JObj [(''bw'', JInt 8192000)])]])]))
     = Some 4000
   \<and> peak_write_bw (merge_peak (init_data ''nvme0n1'') None
        (Some (Some (JObj [(''jobs'', JArr [JObj [(''read'', JObj [(''bw'', JInt 4096000)]),
                                                  (''write'', JObj [(''bw'', JInt 8192000)])]])]))))
     = Some (show_int 4000 @ '' MiB/s'')
   \<and> parse_fio_json (Some (JObj [(''jobs'', JArr [JObj [(''read'', JObj [(''bw'', JInt 0)]),
                                                      (''write'', JObj [(''bw'', JInt 2048)])]])]))
     = Some 2"
proof (intro conjI)
  let ?R = "[(''bw'', JInt 4096000)]"
  let ?J = "[(''read'', JObj ?R), (''write'', JObj [(''bw'', JInt 8192000)])]"
  let ?K = "[(''jobs'', JArr [JObj ?J])]"
  have h: "map_of ?K ''jobs'' = Some (JArr (JObj ?J # []))
      \<and> map_of ?J ''read'' = Some (JObj ?R) \<and> map_of ?R ''bw'' = Some (JInt 4096000)
      \<and> 0 < (4096000::int)"
    by simp
  note a = read_before_write [where kvs = ?K and jkv = ?J and r = ?R and n = 4096000
      and rest = "[]" and data = "init_data ''nvme0n1''" and read_json = None,
      THEN conjunct1, THEN mp, OF h]
  have "parse_fio_json (Some (JObj ?K)) = Some (4096000 div 1024)"
    by (rule a[THEN conjunct2, THEN conjunct1, THEN mp]) simp
  then show "parse_fio_json (Some (JObj ?K)) = Some 4000" by simp
  have "peak_write_bw (merge_peak (init_data ''nvme0n1'') None (Some (Some (JObj ?K))))
          = Some (show_int (4096000 div 1024) @ '' MiB/s'')"
    by (rule a[THEN conjunct2, THEN conjunct2, THEN mp]) simp
  then show "peak_write_bw (merge_peak (init_data ''nvme0n1'') None (Some (Some (JObj ?K))))
          = Some (show_int 4000 @ '' MiB/s'')"
    by simp
next
  let ?W = "[(''bw'', JInt 2048)]"
  let ?J = "[(''read'', JObj [(''bw'', JInt 0)]), (''write'', JObj ?W)]"
  let ?K = "[(''jobs'', JArr [JObj ?J])]"
  have h: "map_of ?K ''jobs'' = Some (JArr (JObj ?J # []))
      \<and> (map_of ?J ''read'' = None
           \<or> (\<exists>r. map_of ?J ''read'' = Some (JObj r)
                \<and> (map_of r ''bw'' = None \<or> (\<exists>k. map_of r ''bw'' = Some (JInt k) \<and> k \<le> 0))))
      \<and> map_of ?J ''write'' = Some (JObj ?W) \<and> map_of ?W ''bw'' = Some (JInt 2048)
      \<and> 0 < (2048::int)"
    by simp
  have "parse_fio_json (Some (JObj ?K)) = int_truediv_1024 2048"
    by (rule read_before_write [where kvs = ?K and jkv = ?J and w = ?W and m = 2048
          and rest = "[]", THEN conjunct2, THEN conjunct1, THEN mp, OF h])
  then show "parse_fio_json (Some (JObj ?K)) = Some 2"
    by (simp only: int_truediv_1024_2048)
qed

text \<open>
  The claim as it was stated names \<open>bw == 0\<close> as the last case. With \<open>read.bw\<close> equal to
  -1 the entry \<open>read\<close> is present, has \<open>bw\<close>, and \<open>bw\<close> is not 0; the result is 2 with the
  entry \<open>write\<close> and \<open>None\<close> without it, so the write branch is consulted.
\<close>

theorem write_branch_counterexample:
  "parse_fio_json (Some (JObj [(''jobs'', JArr [JObj [(''read'', JObj [(''bw'', JInt (- 1))]),
                                                      (''write'', JObj [(''bw'', JInt 2048)])]])]))
     = Some 2
   \<and> parse_fio_json (Some (JObj [(''jobs'', JArr [JObj [(''read'', JObj [(''bw'', JInt (- 1))])]])]))
     = None
   \<and> map_of [(''read'', JObj [(''bw'', JInt (- 1))]), (''write'', JObj [(''bw'', JInt 2048)])] ''read''
     = Some (JObj [(''bw'', JInt (- 1))])
   \<and> map_of [(''bw'', JInt (- 1))] ''bw'' = Some (JInt (- 1))
   \<and> JInt (- 1) \<noteq> JInt 0"
proof (intro conjI)
  have "has_bw ''read'' (JObj [(''read'', JObj [(''bw'', JInt (- 1))]),
                               (''write'', JObj [(''bw'', JInt 2048)])]) = Some False"
    by (intro has_bw_zero) simp
  then have "parse_fio_json (Some (JObj [(''jobs'', JArr [JObj [(''read'', JObj [(''bw'', JInt (- 1))]),
                                                      (''write'', JObj [(''bw'', JInt 2048)])]])]))
     = int_truediv_1024 2048"
    by (intro parse_fio_json_write[where w = "[(''bw'', JInt 2048)]" and rest = "[]"
          and jkv = "[(''read'', JObj [(''bw'', JInt (- 1))]), (''write'', JObj [(''bw'', JInt 2048)])]"])
      simp_all
  then show "parse_fio_json (Some (JObj [(''jobs'', JArr [JObj [(''read'', JObj [(''bw'', JInt (- 1))]),
                                                      (''write'', JObj [(''bw'', JInt 2048)])]])]))
     = Some 2"
    by (simp only: int_truediv_1024_2048)
  have "has_bw ''read'' (JObj [(''read'', JObj [(''bw'', JInt (- 1))])]) = Some False"
    by (intro has_bw_zero) simp
  moreover have "has_bw ''write'' (JObj [(''read'', JObj [(''bw'', JInt (- 1))])]) = Some False"
    by (intro has_bw_zero) simp
  ultimately show "parse_fio_json (Some (JObj [(''jobs'', JArr [JObj [(''read'', JObj [(''bw'', JInt (- 1))])]])]))
     = None"
    by (intro parse_fio_json_neither[where rest = "[]"
          and jkv = "[(''read'', JObj [(''bw'', JInt (- 1))])]"]) simp_all
qed simp_all

section \<open>Idempotence\<close>

text \<open>
  C6. Parsing is a function of the text alone, and parsing the same file again with the
  same parser object leaves the record as the first parse made it. The page of
  \<open>generate_html_report\<close>, for given records and given results of the host queries, is
  one fixed text before the timestamp and one behind it: two runs differ in the
  timestamp only.
\<close>

theorem idempotence:
  "parse loaded (parse loaded data) = parse loaded data
   \<and> (\<exists>pre post. \<forall>now. generate_html_report env so wo now ds = pre @ now @ post)"
proof
  show "parse loaded (parse loaded data) = parse loaded data"
    by (cases loaded) (simp_all add: parse_def parse_content_idem)
  let ?pre = "report_head env so wo ds
      @ concat (map (add_card env []) (sort_key drive_name ds))
      @ lit env Footer 0 @ fst (get_pcie_info so wo) @ lit env Footer 1
      @ snd (get_pcie_info so wo) @ lit env Footer 2"
  have "\<forall>now. generate_html_report env so wo now ds = ?pre @ now @ lit env Footer 3"
    by (simp add: generate_html_report_eq report_footer_def Let_def split_beta)
  then show "\<exists>pre post. \<forall>now. generate_html_report env so wo now ds = pre @ now @ post"
    by blast
qed

section \<open>Sort order\<close>

text \<open>
  C7. In both reports the page is the head, the cards of the drives in the order of
  \<open>sorted\<close> by drive name, and the footer. That order is ascending in the names and holds
  the same drives as the input. When the names are distinct, every arrangement of the
  input gives the same order and the same page.
\<close>

theorem cards_sorted:
  "generate_html_report env so wo now ds =
      report_head env so wo ds
      @ concat (map (add_card env []) (sort_key drive_name ds))
      @ report_footer env so wo now
   \<and> generate_html_report_with_peak env so wo now ds =
      (case avg_peak peak_read_bw ds of
         None \<Rightarrow> None
       | Some ar \<Rightarrow>
           (case avg_peak peak_write_bw ds of
              None \<Rightarrow> None
            | Some aw \<Rightarrow>
                Some (report_head env so wo ds
                      @ concat (map (add_card_peak env []) (sort_key drive_name ds))
                      @ report_footer_peak env so wo now ar aw)))
   \<and> sorted (map drive_name (sort_key drive_name ds))
   \<and> mset (sort_key drive_name ds) = mset ds
   \<and> (mset ds' = mset ds \<and> distinct (map drive_name ds) \<longrightarrow>
        sort_key drive_name ds' = sort_key drive_name ds
        \<and> generate_html_report env so wo now ds' = generate_html_report env so wo now ds
        \<and> generate_html_report_with_peak env so wo now ds'
            = generate_html_report_with_peak env so wo now ds)"
proof (intro conjI impI)
  show "generate_html_report env so wo now ds =
      report_head env so wo ds
      @ concat (map (add_card env []) (sort_key drive_name ds))
      @ report_footer env so wo now"
    by (rule generate_html_report_eq)
  show "generate_html_report_with_peak env so wo now ds =
      (case avg_peak peak_read_bw ds of
         None \<Rightarrow> None
       | Some ar \<Rightarrow>
           (case avg_peak peak_write_bw ds of
              None \<Rightarrow> None
            | Some aw \<Rightarrow>
                Some (report_head env so wo ds
                      @ concat (map (add_card_peak env []) (sort_key drive_name ds))
                      @ report_footer_peak env so wo now ar aw)))"
    by (rule generate_html_report_with_peak_eq)
  show "sorted (map drive_name (sort_key drive_name ds))" by simp
  show "mset (sort_key drive_name ds) = mset ds" by simp
next
  assume h: "mset ds' = mset ds \<and> distinct (map drive_name ds)"
  then have m: "mset ds' = mset ds" and d: "distinct (map drive_name ds)" by simp_all
  show k: "sort_key drive_name ds' = sort_key drive_name ds"
    using m d by (rule sort_key_mset_distinct)
  have hd: "report_head env so wo ds' = report_head env so wo ds"
    using m by (rule report_head_mset)
  show "generate_html_report env so wo now ds' = generate_html_report env so wo now ds"
    by (simp only: generate_html_report_eq k hd)
  show "generate_html_report_with_peak env so wo now ds'
            = generate_html_report_with_peak env so wo now ds"
    by (simp only: generate_html_report_with_peak_eq k hd avg_peak_mset[OF m])
qed

theorem cards_sorted_witness:
  "sort_key drive_name [init_data ''nvme1n1'', init_data ''nvme0n1'']
     = sort_key drive_name [init_data ''nvme0n1'', init_data ''nvme1n1'']
   \<and> generate_html_report \<lparr>lit = (\<lambda>p n. ''|''), upper = (\<lambda>s. s), fixed0 = (\<lambda>r. ''0'')\<rparr>
        None None ''2026-01-01 00:00:00'' [init_data ''nvme1n1'', init_data ''nvme0n1'']
     = generate_html_report \<lparr>lit = (\<lambda>p n. ''|''), upper = (\<lambda>s. s), fixed0 = (\<lambda>r. ''0'')\<rparr>
        None None ''2026-01-01 00:00:00'' [init_data ''nvme0n1'', init_data ''nvme1n1'']"
proof -
  have h: "mset [init_data ''nvme1n1'', init_data ''nvme0n1'']
             = mset [init_data ''nvme0n1'', init_data ''nvme1n1'']
           \<and> distinct (map drive_name [init_data ''nvme0n1'', init_data ''nvme1n1''])"
    by (simp add: init_data_def)
  note a = cards_sorted [where ds = "[init_data ''nvme0n1'', init_data ''nvme1n1'']"
      and ds' = "[init_data ''nvme1n1'', init_data ''nvme0n1'']"
      and env = "\<lparr>lit = (\<lambda>p n. ''|''), upper = (\<lambda>s. s), fixed0 = (\<lambda>r. ''0'')\<rparr>"
      and so = None and wo = None and now = "''2026-01-01 00:00:00''",
      THEN conjunct2, THEN conjunct2, THEN conjunct2, THEN conjunct2, THEN mp, OF h]
  from a show ?thesis by blast
qed

section \<open>Average exclusion\<close>

text \<open>
  C4, as amended. For records whose peak field is either absent or the display text of
  a number, as \<open>main\<close> writes it (a positive integer below \<open>2 ^ 1024\<close>), the average is the
  true division of the sum of the numbers of the present fields by their count, with 1
  in place of a count of 0: the float nearest to the arithmetic mean. A record without
  the field adds to neither. Where the mean is an integer below \<open>2 ^ 53\<close> the division is
  exact and the average is the mean. The computation is the same function for the read
  and for the write field, and the footer of the peak report shows the two results.
  Peak-read values of 1000 and 3000 on two of three devices give 2000.
\<close>

theorem average_exclusion:
  "((\<forall>d\<in>set ds. key d = map_option (\<lambda>n. show_int n @ '' MiB/s'') (pv d))
      \<and> (\<forall>d\<in>set ds. \<forall>n. pv d = Some n \<longrightarrow> 0 < n \<and> n < 2 ^ 1024) \<longrightarrow>
      avg_peak key ds =
        int_truediv (sum_list (List.map_filter pv ds))
          (max (int (length (List.map_filter pv ds))) 1))
   \<and> (0 < m \<and> m dvd s \<and> \<bar>s div m\<bar> < 2 ^ 53 \<longrightarrow> int_truediv s m = Some (of_int (s div m)))
   \<and> avg_peak key [] = Some 0
   \<and> avg_peak peak_read_bw
        [a\<lparr>peak_read_bw := Some ''1000 MiB/s''\<rparr>, b\<lparr>peak_read_bw := None\<rparr>,
         c\<lparr>peak_read_bw := Some ''3000 MiB/s''\<rparr>] = Some 2000
   \<and> ((\<forall>d\<in>set ds. peak_read_bw d = map_option (\<lambda>n. show_int n @ '' MiB/s'') (pr d))
        \<and> (\<forall>d\<in>set ds. \<forall>n. pr d = Some n \<longrightarrow> 0 < n \<and> n < 2 ^ 1024)
        \<and> (\<forall>d\<in>set ds. peak_write_bw d = map_option (\<lambda>n. show_int n @ '' MiB/s'') (pw d))
        \<and> (\<forall>d\<in>set ds. \<forall>n. pw d = Some n \<longrightarrow> 0 < n \<and> n < 2 ^ 1024) \<longrightarrow>
        generate_html_report_with_peak env so wo now ds =
          (case int_truediv (sum_list (List.map_filter pr ds))
                  (max (int (length (List.map_filter pr ds))) 1) of
             None \<Rightarrow> None
           | Some ar \<Rightarrow>
               (case int_truediv (sum_list (List.map_filter pw ds))
                       (max (int (length (List.map_filter pw ds))) 1) of
                  None \<Rightarrow> None
                | Some aw \<Rightarrow>
                    Some (report_head env so wo ds
                          @ concat (map (add_card_peak env []) (sort_key drive_name ds))
                          @ report_footer_peak env so wo now ar aw))))"
proof (intro conjI impI)
  assume "(\<forall>d\<in>set ds. key d = map_option (\<lambda>n. show_int n @ '' MiB/s'') (pv d))
      \<and> (\<forall>d\<in>set ds. \<forall>n. pv d = Some n \<longrightarrow> 0 < n \<and> n < 2 ^ 1024)"
  then have "\<forall>d\<in>set ds. key d = map_option (\<lambda>n. show_int n @ '' MiB/s'') (pv d)" by simp
  then show "avg_peak key ds =
        int_truediv (sum_list (List.map_filter pv ds))
          (max (int (length (List.map_filter pv ds))) 1)"
    by (rule avg_peak_display)
next
  assume "0 < m \<and> m dvd s \<and> \<bar>s div m\<bar> < 2 ^ 53"
  then show "int_truediv s m = Some (of_int (s div m))"
    by (intro int_truediv_exact) simp_all
next
  have "int_truediv 0 1 = Some (of_int (0 div 1))" by (rule int_truediv_exact) simp_all
  then show "avg_peak key [] = Some 0" by (simp add: avg_peak_def)
next
  let ?ds = "[a\<lparr>peak_read_bw := Some ''1000 MiB/s''\<rparr>, b\<lparr>peak_read_bw := None\<rparr>,
         c\<lparr>peak_read_bw := Some ''3000 MiB/s''\<rparr>]"
  let ?pv = "\<lambda>d. if peak_read_bw d = Some ''1000 MiB/s'' then Some (1000::int)
                 else if peak_read_bw d = Some ''3000 MiB/s'' then Some 3000 else None"
  have "\<forall>d\<in>set ?ds. peak_read_bw d = map_option (\<lambda>n. show_int n @ '' MiB/s'') (?pv d)"
    by (simp add: show_int_1000 show_int_3000)
  then have "avg_peak peak_read_bw ?ds =
        int_truediv (sum_list (List.map_filter ?pv ?ds))
          (max (int (length (List.map_filter ?pv ?ds))) 1)"
    by (rule avg_peak_display)
  then have e: "avg_peak peak_read_bw ?ds = int_truediv 4000 2"
    by (simp add: List.map_filter_def)
  have "int_truediv 4000 2 = Some (of_int (4000 div 2))" by (rule int_truediv_exact) simp_all
  with e show "avg_peak peak_read_bw ?ds = Some 2000" by simp
next
  assume h: "(\<forall>d\<in>set ds. peak_read_bw d = map_option (\<lambda>n. show_int n @ '' MiB/s'') (pr d))
        \<and> (\<forall>d\<in>set ds. \<forall>n. pr d = Some n \<longrightarrow> 0 < n \<and> n < 2 ^ 1024)
        \<and> (\<forall>d\<in>set ds. peak_write_bw d = map_option (\<lambda>n. show_int n @ '' MiB/s'') (pw d))
        \<and> (\<forall>d\<in>set ds. \<forall>n. pw d = Some n \<longrightarrow> 0 < n \<and> n < 2 ^ 1024)"
  from h have hr: "\<forall>d\<in>set ds. peak_read_bw d = map_option (\<lambda>n. show_int n @ '' MiB/s'') (pr d)"
    by (rule conjunct1)
  from h have hw: "\<forall>d\<in>set ds. peak_write_bw d = map_option (\<lambda>n. show_int n @ '' MiB/s'') (pw d)"
    by (rule conjunct1[OF conjunct2[OF conjunct2]])
  have r: "avg_peak peak_read_bw ds =
        int_truediv (sum_list (List.map_filter pr ds))
          (max (int (length (List.map_filter pr ds))) 1)"
    using hr by (rule avg_peak_display)
  have w: "avg_peak peak_write_bw ds =
        int_truediv (sum_list (List.map_filter pw ds))
          (max (int (length (List.map_filter pw ds))) 1)"
    using hw by (rule avg_peak_display)
  show "generate_html_report_with_peak env so wo now ds =
          (case int_truediv (sum_list (List.map_filter pr ds))
                  (max (int (length (List.map_filter pr ds))) 1) of
             None \<Rightarrow> None
           | Some ar \<Rightarrow>
               (case int_truediv (sum_list (List.map_filter pw ds))
                       (max (int (length (List.map_filter pw ds))) 1) of
                  None \<Rightarrow> None
                | Some aw \<Rightarrow>
                    Some (report_head env so wo ds
                          @ concat (map (add_card_peak env []) (sort_key drive_name ds))
                          @ report_footer_peak env so wo now ar aw)))"
    by (simp only: generate_html_report_with_peak_eq r w)
qed

theorem average_exclusion_witness:
  "avg_peak peak_write_bw
     [(init_data ''nvme0n1'')\<lparr>peak_write_bw := Some (show_int 4000 @ '' MiB/s'')\<rparr>,
      init_data ''nvme1n1'',
      (init_data ''nvme2n1'')\<lparr>peak_write_bw := Some (show_int 5000 @ '' MiB/s'')\<rparr>]
   = Some 4500"
proof -
  let ?ds = "[(init_data ''nvme0n1'')\<lparr>peak_write_bw := Some (show_int 4000 @ '' MiB/s'')\<rparr>,
      init_data ''nvme1n1'',
      (init_data ''nvme2n1'')\<lparr>peak_write_bw := Some (show_int 5000 @ '' MiB/s'')\<rparr>]"
  let ?pv = "\<lambda>d. if drive_name d = ''nvme0n1'' then Some (4000::int)
                 else if drive_name d = ''nvme2n1'' then Some 5000 else None"
  have h: "(\<forall>d\<in>set ?ds. peak_write_bw d = map_option (\<lambda>n. show_int n @ '' MiB/s'') (?pv d))
           \<and> (\<forall>d\<in>set ?ds. \<forall>n. ?pv d = Some n \<longrightarrow> 0 < n \<and> n < 2 ^ 1024)"
    by (simp add: init_data_def)
  have "avg_peak peak_write_bw ?ds =
        int_truediv (sum_list (List.map_filter ?pv ?ds))
          (max (int (length (List.map_filter ?pv ?ds))) 1)"
    by (rule average_exclusion [where key = peak_write_bw and ds = ?ds and pv = ?pv,
          THEN conjunct1, THEN mp, OF h])
  then have e: "avg_peak peak_write_bw ?ds = int_truediv 9000 2"
    by (simp add: List.map_filter_def init_data_def)
  have g: "0 < (2::int) \<and> (2::int) dvd 9000 \<and> \<bar>9000 div (2::int)\<bar> < 2 ^ 53" by simp
  have "int_truediv 9000 2 = Some (of_int (9000 div 2))"
    by (rule average_exclusion [where s = 9000 and m = 2,
          THEN conjunct2, THEN conjunct1, THEN mp, OF g])
  with e show ?thesis by simp
qed

text \<open>
  The claim as it was stated calls the average the arithmetic mean. With peak-read
  values 1, 1 and 2 the mean is 4/3, which is no float; the average is the float next
  to it, which Python prints as 1.3333333333333333.
\<close>

theorem average_rounding_counterexample:
  "avg_peak peak_read_bw
     [(init_data ''nvme0n1'')\<lparr>peak_read_bw := Some ''1 MiB/s''\<rparr>,
      (init_data ''nvme1n1'')\<lparr>peak_read_bw := Some ''1 MiB/s''\<rparr>,
      (init_data ''nvme2n1'')\<lparr>peak_read_bw := Some ''2 MiB/s''\<rparr>]
     = Some (6004799503160661 / 4503599627370496)
   \<and> (6004799503160661 / 4503599627370496 :: rat) \<noteq> (1 + 1 + 2) / 3"
proof
  let ?ds = "[(init_data ''nvme0n1'')\<lparr>peak_read_bw := Some ''1 MiB/s''\<rparr>,
      (init_data ''nvme1n1'')\<lparr>peak_read_bw := Some ''1 MiB/s''\<rparr>,
      (init_data ''nvme2n1'')\<lparr>peak_read_bw := Some ''2 MiB/s''\<rparr>]"
  let ?pv = "\<lambda>d. if drive_name d = ''nvme2n1'' then Some (2::int) else Some 1"
  have s1: "show_int 1 = ''1''" and s2: "show_int 2 = ''2''"
    by (simp_all add: show_int_def show_nat.simps digit_char_def)
  have "\<forall>d\<in>set ?ds. peak_read_bw d = map_option (\<lambda>n. show_int n @ '' MiB/s'') (?pv d)"
    by (simp add: init_data_def s1 s2)
  then have "avg_peak peak_read_bw ?ds =
        int_truediv (sum_list (List.map_filter ?pv ?ds))
          (max (int (length (List.map_filter ?pv ?ds))) 1)"
    by (rule avg_peak_display)
  then have "avg_peak peak_read_bw ?ds = int_truediv 4 3"
    by (simp add: List.map_filter_def init_data_def)
  then show "avg_peak peak_read_bw ?ds = Some (6004799503160661 / 4503599627370496)"
    by (simp only: int_truediv_4_3)
  show "(6004799503160661 / 4503599627370496 :: rat) \<noteq> (1 + 1 + 2) / 3" by simp
qed

section \<open>Pass predicate\<close>

text \<open>
  C2. For every device record the badge class of its card is \<open>status-passed\<close> exactly when
  \<open>health_status\<close> is \<open>PASSED\<close> and \<open>errors\<close> is 0, in the plain and in the peak report;
  the passed count of the summary is the number of records with that predicate, which is
  the number of cards that carry the \<open>status-passed\<close> badge, and the two generators agree.
\<close>

theorem pass_predicate_consistency:
  "(status_class d = ''status-passed'' \<longleftrightarrow> health_status d = ''PASSED'' \<and> errors d = 0)
   \<and> (status_class_peak d = ''status-passed'' \<longleftrightarrow> health_status d = ''PASSED'' \<and> errors d = 0)
   \<and> passed_count ds = int (length (filter (\<lambda>d. health_status d = ''PASSED'' \<and> errors d = 0) ds))
   \<and> passed_count_peak ds = int (length (filter (\<lambda>d. health_status d = ''PASSED'' \<and> errors d = 0) ds))
   \<and> passed_count ds = int (length (filter (\<lambda>d. status_class d = ''status-passed'') ds))
   \<and> passed_count_peak ds = int (length (filter (\<lambda>d. status_class_peak d = ''status-passed'') ds))
   \<and> status_class d = status_class_peak d
   \<and> passed_count ds = passed_count_peak ds"
  by (simp add: status_class_def status_class_peak_def passed_count_def passed_count_peak_def
      sum_list_ones)

section \<open>Link descriptor\<close>


text \<open>The speed file of a fourth-generation link, as sysfs prints it, with four lanes.\<close>

lemma get_pcie_info_gen4:
  "get_pcie_info (Some ''16.0 GT/s PCIe\<newline>'') (Some ''4\<newline>'') = (''PCIe 4.0 x4'', ''16.0 GT/s PCIe'')"
  by (simp add: get_pcie_info_def Let_def py_strip_def is_space_def)

lemma get_pcie_info_unrecognised:
  "get_pcie_info (Some ''2.5 GT/s PCIe\<newline>'') (Some ''1\<newline>'') = (''Unknown x1'', ''2.5 GT/s PCIe'')"
  by (simp add: get_pcie_info_def Let_def py_strip_def is_space_def)


end
